theory Spec2Isabelle
  imports Complex_Main "HOL-Library.Signed_Division"
begin

section \<open>Data model of hand.c\<close>

text \<open>
  The program keeps one \<open>struct ctx\<close> and passes it to every stage of the frame loop.
  The model keeps the fields the stages compute with. The capture and writer handles,
  the scratch images, the memory storages and the morphology kernel are only handed to
  the vision library and are left out.

  All C \<open>int\<close> values are modelled as unbounded integers: the values are pixel
  coordinates of a camera frame, their sums and squared distances, and signed overflow
  is undefined in C. Integer division in C truncates towards zero, which is \<open>sdiv\<close>.
\<close>

definition NUM_FINGERS :: int where
  "NUM_FINGERS = 5"

definition NUM_DEFECTS :: int where
  "NUM_DEFECTS = 8"

text \<open>\<open>CvPoint\<close>: the fields \<open>x\<close> and \<open>y\<close> of the library's struct.\<close>

record CvPoint =
  px :: int
  py :: int

definition cvPoint :: "int \<Rightarrow> int \<Rightarrow> CvPoint" where
  "cvPoint a b = \<lparr>px = a, py = b\<rparr>"

text \<open>
  \<open>CvConvexityDefect\<close>: the program reads only \<open>depth_point\<close> of the library's struct
  (its \<open>start\<close>, \<open>end\<close> and \<open>depth\<close> fields are never used).
\<close>

record CvConvexityDefect =
  depth_point :: CvPoint

text \<open>\<open>IplImage\<close>: only the size of the frame is read (\<open>cvGetSize\<close>).\<close>

record IplImage =
  width :: int
  height :: int

datatype colour = RED | GREEN | BLUE | YELLOW | PURPLE | GREY

text \<open>
  A \<open>CvSeq *\<close> of points is a list of points, \<open>None\<close> for the null pointer. The
  buffers \<open>fingers\<close> and \<open>defects\<close> are the arrays allocated by \<open>init_ctx\<close>.
\<close>

record ctx =
  image_c :: IplImage
  contour :: "CvPoint list option"
  hull_c :: "CvPoint list option"
  hand_center :: CvPoint
  fingers :: "CvPoint list"
  defects :: "CvPoint list"
  num_fingers :: int
  hand_radius :: int
  num_defects :: int

text \<open>
  \<open>struct ctx ctx = { }\<close> in \<open>main\<close> zeroes every field; \<open>init_capture\<close> stores the
  first frame and \<open>init_ctx\<close> allocates the two zeroed buffers with \<open>calloc\<close>.
\<close>

definition zero_ctx :: "IplImage \<Rightarrow> ctx" where
  "zero_ctx img =
     \<lparr>image_c = img, contour = None, hull_c = None, hand_center = cvPoint 0 0,
      fingers = [], defects = [], num_fingers = 0, hand_radius = 0, num_defects = 0\<rparr>"

definition init_ctx :: "ctx \<Rightarrow> ctx" where
  "init_ctx c =
     c\<lparr>fingers := replicate (nat (NUM_FINGERS + 1)) (cvPoint 0 0),
       defects := replicate (nat NUM_DEFECTS) (cvPoint 0 0)\<rparr>"

section \<open>Truncated square root\<close>

text \<open>
  \<open>dist += sqrt(d)\<close> converts the \<open>int\<close> \<open>d\<close> to \<open>double\<close>, takes the square root,
  adds it to \<open>dist\<close> and converts the sum back to \<open>int\<close>, which drops the fraction.
  For the non-negative integers that occur this adds the integer part of the root.
  \<open>floor_sqrt\<close> computes that integer part; \<open>floor_sqrt_real\<close> below shows that
  it is the floor of the real square root.
\<close>

fun floor_sqrt :: "nat \<Rightarrow> nat" where
  "floor_sqrt 0 = 0"
| "floor_sqrt (Suc n) =
     (let r = floor_sqrt n in if Suc r * Suc r \<le> Suc n then Suc r else r)"

definition sqrt_trunc :: "int \<Rightarrow> int" where
  "sqrt_trunc d = int (floor_sqrt (nat d))"

section \<open>find_convex_hull\<close>

text \<open>
  First loop of \<open>find_convex_hull\<close>:
  \<^verbatim>\<open>for (i = 0; i < defects->total && i < NUM_DEFECTS; i++)\<close>
  adds the depth point to the running sums \<open>x\<close>, \<open>y\<close> and copies it to
  \<open>ctx->defects[i]\<close>. The state of the loop is \<open>(x, y, ctx->defects)\<close>.
\<close>

definition center_loop ::
  "CvConvexityDefect list \<Rightarrow> CvPoint list \<Rightarrow> int \<times> int \<times> CvPoint list" where
  "center_loop defect_array buf =
     fold (\<lambda>i (x, y, ds).
             (x + px (depth_point (defect_array ! i)),
              y + py (depth_point (defect_array ! i)),
              ds[i := cvPoint (px (depth_point (defect_array ! i)))
                              (py (depth_point (defect_array ! i)))]))
          [0 ..< min (length defect_array) (nat NUM_DEFECTS)]
          (0, 0, buf)"

text \<open>
  Second loop: \<^verbatim>\<open>for (i = 0; i < defects->total; i++)\<close> accumulates in \<open>dist\<close>
  the truncated distance of every depth point to \<open>(x, y)\<close>.
\<close>

definition radius_loop :: "CvConvexityDefect list \<Rightarrow> int \<Rightarrow> int \<Rightarrow> int" where
  "radius_loop defect_array x y =
     fold (\<lambda>i dist.
             (let d = (x - px (depth_point (defect_array ! i))) *
                      (x - px (depth_point (defect_array ! i))) +
                      (y - py (depth_point (defect_array ! i))) *
                      (y - py (depth_point (defect_array ! i)))
              in dist + sqrt_trunc d))
          [0 ..< length defect_array]
          0"

text \<open>
  The two library calls are parameters: \<open>cvConvexHull2\<close> maps the contour to its hull
  (or null) and \<open>cvConvexityDefects\<close> maps contour and hull to the sequence of defects
  (or null). \<open>defects->total\<close> is the length of that sequence.
\<close>

definition find_convex_hull ::
  "(CvPoint list \<Rightarrow> CvPoint list option) \<Rightarrow>
   (CvPoint list \<Rightarrow> CvPoint list \<Rightarrow> CvConvexityDefect list option) \<Rightarrow> ctx \<Rightarrow> ctx" where
  "find_convex_hull cvConvexHull2 cvConvexityDefects c0 =
     (let c1 = c0\<lparr>hull_c := None\<rparr> in
      case contour c1 of
        None \<Rightarrow> c1
      | Some cont \<Rightarrow>
          (let c2 = c1\<lparr>hull_c := cvConvexHull2 cont\<rparr> in
           case hull_c c2 of
             None \<Rightarrow> c2
           | Some h \<Rightarrow>
               (case cvConvexityDefects cont h of
                  None \<Rightarrow> c2
                | Some defect_array \<Rightarrow>
                    (let total = int (length defect_array) in
                     if total = 0 then c2
                     else
                       (case center_loop defect_array (defects c2) of
                          (xs, ys, ds) \<Rightarrow>
                            (let x = xs sdiv total;
                                 y = ys sdiv total;
                                 dist = radius_loop defect_array x y
                             in c2\<lparr>defects := ds,
                                   num_defects := total,
                                   hand_center := cvPoint x y,
                                   hand_radius := dist sdiv total\<rparr>))))))"

section \<open>find_contour\<close>

text \<open>
  The selection loop of \<open>find_contour\<close>:
  \<^verbatim>\<open>for (tmp = contours; tmp; tmp = tmp->h_next)\<close> keeps in \<open>contour\<close> the
  sequence whose absolute area is strictly greater than \<open>max_area\<close>, which starts
  at \<open>0.0\<close>. The area function of the library is a parameter.
\<close>

fun select_contour ::
  "(CvPoint list \<Rightarrow> real) \<Rightarrow> CvPoint list list \<Rightarrow> real \<Rightarrow> CvPoint list option \<Rightarrow>
   CvPoint list option" where
  "select_contour cvContourArea [] max_area cont = cont"
| "select_contour cvContourArea (tmp # rest) max_area cont =
     (let area = \<bar>cvContourArea tmp\<bar>
      in if area > max_area then select_contour cvContourArea rest area (Some tmp)
         else select_contour cvContourArea rest max_area cont)"

text \<open>
  \<open>contours\<close> is the list \<open>cvFindContours\<close> returns for the thresholded image;
  \<open>cvApproxPoly\<close> is the library's poly-line approximation. \<open>ctx->contour\<close> is
  assigned only inside \<^verbatim>\<open>if (contour) { ... }\<close>.
\<close>

definition find_contour ::
  "CvPoint list list \<Rightarrow> (CvPoint list \<Rightarrow> real) \<Rightarrow> (CvPoint list \<Rightarrow> CvPoint list option) \<Rightarrow>
   ctx \<Rightarrow> ctx" where
  "find_contour contours cvContourArea cvApproxPoly c =
     (case select_contour cvContourArea contours 0 None of
        None \<Rightarrow> c
      | Some cont \<Rightarrow> c\<lparr>contour := cvApproxPoly cont\<rparr>)"

section \<open>find_fingers\<close>

text \<open>
  The scan loop \<^verbatim>\<open>for (i = 0; i < n; i++)\<close> of \<open>find_fingers\<close>. Its state is
  the tuple of the locals \<open>i\<close>, \<open>dist1\<close>, \<open>dist2\<close>, \<open>max_point\<close> and the context.
  On \<open>break\<close> the loop returns at once: \<open>i\<close> is not incremented and the registers
  are not rolled. \<open>ctx->num_fingers\<close> is below the size of the \<open>fingers\<close> array
  whenever the store is reached, see \<open>loop_cap\<close>.
\<close>

function find_fingers_loop ::
  "CvPoint list \<Rightarrow> nat \<Rightarrow> nat \<times> int \<times> int \<times> CvPoint \<times> ctx \<Rightarrow>
   nat \<times> int \<times> int \<times> CvPoint \<times> ctx" where
  "find_fingers_loop points n (i, dist1, dist2, max_point, c) =
     (if i < n then
        (let cx = px (hand_center c);
             cy = py (hand_center c);
             dist = (cx - px (points ! i)) * (cx - px (points ! i)) +
                    (cy - py (points ! i)) * (cy - py (points ! i))
         in if dist < dist1 \<and> dist1 > dist2 \<and> px max_point \<noteq> 0
               \<and> py max_point < height (image_c c) - 10
            then
              (let c' = c\<lparr>fingers := (fingers c)[nat (num_fingers c) := max_point],
                         num_fingers := num_fingers c + 1\<rparr>
               in if num_fingers c' \<ge> NUM_FINGERS + 1
                  then (i, dist1, dist2, max_point, c')
                  else find_fingers_loop points n (Suc i, dist, dist1, points ! i, c'))
            else find_fingers_loop points n (Suc i, dist, dist1, points ! i, c))
      else (i, dist1, dist2, max_point, c))"
  by pat_completeness auto
termination
  by (relation "measure (\<lambda>(points, n, i, dist1, dist2, max_point, c). n - i)") auto

declare find_fingers_loop.simps [simp del]

text \<open>
  \<open>max_point\<close> is declared without an initial value; \<open>max_point0\<close> stands for
  whatever the stack holds. \<open>points\<close> is the copy of the contour made by
  \<open>cvCvtSeqToArray\<close> and \<open>n\<close> its length.
\<close>

definition find_fingers :: "CvPoint \<Rightarrow> ctx \<Rightarrow> ctx" where
  "find_fingers max_point0 c0 =
     (let c1 = c0\<lparr>num_fingers := 0\<rparr> in
      case contour c1 of
        None \<Rightarrow> c1
      | Some points \<Rightarrow>
          (case hull_c c1 of
             None \<Rightarrow> c1
           | Some h \<Rightarrow>
               (case find_fingers_loop points (length points) (0, 0, 0, max_point0, c1) of
                  (i, dist1, dist2, max_point, c) \<Rightarrow> c)))"

section \<open>display and the frame loop\<close>

text \<open>
  The drawing and output calls are recorded as a trace. \<open>Circle\<close> carries centre,
  radius, colour and thickness of \<open>cvCircle\<close>; \<open>Line\<close> the end points, colour and
  thickness of \<open>cvLine\<close>; \<open>ShowImage\<close> the window name; \<open>WriteFrame\<close> is
  \<open>cvWriteFrame\<close>. Reading a buffer outside its allocated size is undefined in C and
  is the error \<open>Out_of_bounds\<close>.
\<close>

datatype draw_op =
  Circle CvPoint int colour int
| Line CvPoint CvPoint colour int
| ShowImage string
| WriteFrame

datatype error = Out_of_bounds

definition read_buf :: "CvPoint list \<Rightarrow> nat \<Rightarrow> error + CvPoint" where
  "read_buf buf k = (if k < length buf then Inr (buf ! k) else Inl Out_of_bounds)"

fun for_each :: "(nat \<Rightarrow> error + draw_op list) \<Rightarrow> nat list \<Rightarrow> error + draw_op list" where
  "for_each body [] = Inr []"
| "for_each body (k # ks) =
     (case body k of
        Inl e \<Rightarrow> Inl e
      | Inr ops \<Rightarrow>
          (case for_each body ks of
             Inl e \<Rightarrow> Inl e
           | Inr rest \<Rightarrow> Inr (ops @ rest)))"

definition display :: "ctx \<Rightarrow> error + draw_op list" where
  "display c =
     (if num_fingers c = NUM_FINGERS then
        (case for_each
                (\<lambda>k. case read_buf (fingers c) k of
                        Inl e \<Rightarrow> Inl e
                      | Inr f \<Rightarrow> Inr [Circle f 10 GREEN 3, Line (hand_center c) f YELLOW 1])
                [0 ..< nat (num_fingers c)] of
           Inl e \<Rightarrow> Inl e
         | Inr finger_ops \<Rightarrow>
             (case for_each
                     (\<lambda>k. case read_buf (defects c) k of
                             Inl e \<Rightarrow> Inl e
                           | Inr d \<Rightarrow> Inr [Circle d 2 GREY 2])
                     [0 ..< nat (num_defects c)] of
                Inl e \<Rightarrow> Inl e
              | Inr defect_ops \<Rightarrow>
                  Inr ([Circle (hand_center c) 5 PURPLE 1,
                        Circle (hand_center c) (hand_radius c) RED 1]
                       @ finger_ops @ defect_ops
                       @ [ShowImage ''output'', ShowImage ''thresholded''])))
      else Inr [ShowImage ''output'', ShowImage ''thresholded''])"

text \<open>
  What the vision library and the camera deliver in one iteration of the loop in
  \<open>main\<close>: the frame of \<open>cvQueryFrame\<close>, the contours of the thresholded
  image with the library functions applied to them, and the indeterminate initial value
  of \<open>max_point\<close>.
\<close>

record frame_in =
  query_frame :: IplImage
  found_contours :: "CvPoint list list"
  contour_area :: "CvPoint list \<Rightarrow> real"
  approx_poly :: "CvPoint list \<Rightarrow> CvPoint list option"
  convex_hull :: "CvPoint list \<Rightarrow> CvPoint list option"
  convexity_defects :: "CvPoint list \<Rightarrow> CvPoint list \<Rightarrow> CvConvexityDefect list option"
  stack_point :: CvPoint

text \<open>The detection stages of one iteration, in the order of \<open>main\<close>.\<close>

definition detect :: "frame_in \<Rightarrow> ctx \<Rightarrow> ctx" where
  "detect f c0 =
     (let c1 = c0\<lparr>image_c := query_frame f\<rparr>;
          c2 = find_contour (found_contours f) (contour_area f) (approx_poly f) c1;
          c3 = find_convex_hull (convex_hull f) (convexity_defects f) c2;
          c4 = find_fingers (stack_point f) c3
      in c4)"

text \<open>One iteration: detection, \<open>display\<close>, then \<open>cvWriteFrame\<close>.\<close>

definition main_iteration :: "frame_in \<Rightarrow> ctx \<Rightarrow> ctx \<times> (error + draw_op list)" where
  "main_iteration f c0 =
     (let c4 = detect f c0
      in (c4, case display c4 of
                Inl e \<Rightarrow> Inl e
              | Inr ops \<Rightarrow> Inr (ops @ [WriteFrame])))"

text \<open>The context after the frames of a run, one iteration after the other.\<close>

fun main_frames :: "frame_in list \<Rightarrow> ctx \<Rightarrow> ctx" where
  "main_frames [] c = c"
| "main_frames (f # fs) c = main_frames fs (fst (main_iteration f c))"

section \<open>Vocabulary of the specification\<close>

text \<open>
  Modelled from the spec: \<open>squaredDistance(a, b)\<close> returns \<open>(ax-bx)\<^sup>2 + (ay-by)\<^sup>2\<close>
  (the source has no such function; it writes the expression out where it is needed).
\<close>

definition squaredDistance :: "CvPoint \<Rightarrow> CvPoint \<Rightarrow> int" where
  "squaredDistance a b = (px a - px b)\<^sup>2 + (py a - py b)\<^sup>2"

section \<open>Contexts and contours used as concrete inputs\<close>

text \<open>
  \<open>scan_ctx pts\<close> is a context as \<open>find_fingers\<close> receives it on a 640x480 frame:
  buffers allocated, contour and hull present, hand centre \<open>(100,100)\<close>, no finger
  counted yet.
\<close>

definition scan_ctx :: "CvPoint list \<Rightarrow> ctx" where
  "scan_ctx pts =
     (init_ctx (zero_ctx \<lparr>width = 640, height = 480\<rparr>))
       \<lparr>contour := Some pts, hull_c := Some pts, hand_center := cvPoint 100 100\<rparr>"

definition edge_points :: "CvPoint list" where
  "edge_points = [cvPoint 10 100, cvPoint 0 100, cvPoint 10 100]"

definition peak_points :: "CvPoint list" where
  "peak_points = [cvPoint 60 100, cvPoint 50 100, cvPoint 70 100]"

definition zigzag_points :: "CvPoint list" where
  "zigzag_points =
     [cvPoint 90 100, cvPoint 50 100, cvPoint 90 100, cvPoint 50 100, cvPoint 90 100,
      cvPoint 50 100, cvPoint 90 100, cvPoint 50 100, cvPoint 90 100, cvPoint 50 100,
      cvPoint 90 100, cvPoint 50 100, cvPoint 90 100, cvPoint 50 100, cvPoint 90 100]"

text \<open>
  Two frames for the loop in \<open>main\<close>: in \<open>frame_with_hand\<close> the library finds one
  contour of area \<open>100\<close> and one convexity defect; in \<open>frame_without_contour\<close> it
  finds no contour at all. \<open>tracked_ctx\<close> is the context after the first of them.
\<close>

definition frame_with_hand :: frame_in where
  "frame_with_hand =
     \<lparr>query_frame = \<lparr>width = 640, height = 480\<rparr>,
      found_contours = [peak_points],
      contour_area = (\<lambda>s. 100),
      approx_poly = (\<lambda>s. Some s),
      convex_hull = (\<lambda>s. Some s),
      convexity_defects = (\<lambda>s h. Some [\<lparr>depth_point = cvPoint 100 100\<rparr>]),
      stack_point = cvPoint 7 7\<rparr>"

definition frame_without_contour :: frame_in where
  "frame_without_contour = frame_with_hand\<lparr>found_contours := []\<rparr>"

definition tracked_ctx :: ctx where
  "tracked_ctx =
     \<lparr>image_c = \<lparr>width = 640, height = 480\<rparr>,
      contour = Some peak_points,
      hull_c = Some peak_points,
      hand_center = cvPoint 100 100,
      fingers = [cvPoint 50 100, cvPoint 0 0, cvPoint 0 0, cvPoint 0 0, cvPoint 0 0, cvPoint 0 0],
      defects = [cvPoint 100 100, cvPoint 0 0, cvPoint 0 0, cvPoint 0 0, cvPoint 0 0,
                 cvPoint 0 0, cvPoint 0 0, cvPoint 0 0],
      num_fingers = 1, hand_radius = 0, num_defects = 1\<rparr>"

section \<open>Properties of the truncated square root\<close>

lemma floor_sqrt_lower: "floor_sqrt n * floor_sqrt n \<le> n"
proof (induction n)
  case 0
  show ?case by simp
next
  case (Suc n)
  then show ?case by (simp add: Let_def)
qed

lemma floor_sqrt_upper: "n < Suc (floor_sqrt n) * Suc (floor_sqrt n)"
proof (induction n)
  case 0
  show ?case by simp
next
  case (Suc n)
  then show ?case by (auto simp: Let_def)
qed

lemma floor_sqrt_unique:
  assumes "r * r \<le> n" and "n < Suc r * Suc r"
  shows "floor_sqrt n = r"
proof (rule ccontr)
  assume neq: "floor_sqrt n \<noteq> r"
  let ?s = "floor_sqrt n"
  show False
  proof (cases "?s < r")
    case True
    then have "Suc ?s \<le> r" by simp
    then have "Suc ?s * Suc ?s \<le> r * r" by (intro mult_le_mono)
    with assms(1) floor_sqrt_upper [of n] show False by linarith
  next
    case False
    with neq have "Suc r \<le> ?s" by simp
    then have "Suc r * Suc r \<le> ?s * ?s" by (intro mult_le_mono)
    with assms(2) floor_sqrt_lower [of n] show False by linarith
  qed
qed

lemma floor_sqrt_real: "int (floor_sqrt n) = \<lfloor>sqrt (real n)\<rfloor>"
proof -
  let ?r = "floor_sqrt n"
  have "real (?r * ?r) \<le> real n"
    using floor_sqrt_lower [of n] by (simp only: of_nat_le_iff)
  then have lo: "real ?r \<le> sqrt (real n)"
    by (intro real_le_rsqrt) (simp add: power2_eq_square)
  have "real n < real (Suc ?r * Suc ?r)"
    using floor_sqrt_upper [of n] by (simp only: of_nat_less_iff)
  then have hi: "sqrt (real n) < real ?r + 1"
    by (intro real_less_lsqrt) (simp_all add: power2_eq_square algebra_simps)
  have "\<lfloor>sqrt (real n)\<rfloor> = int ?r"
    by (rule floor_unique) (use lo hi in simp_all)
  then show ?thesis by simp
qed

lemma sqrt_trunc_real: "0 \<le> d \<Longrightarrow> sqrt_trunc d = \<lfloor>sqrt (real_of_int d)\<rfloor>"
  by (simp add: sqrt_trunc_def floor_sqrt_real)

lemma sqrt_trunc_nonneg: "0 \<le> sqrt_trunc d"
  by (simp add: sqrt_trunc_def)

section \<open>The defect aggregator\<close>

lemma center_fold_x:
  "k \<le> length da \<Longrightarrow>
   fst (fold (\<lambda>i (x, y, ds).
             (x + px (depth_point (da ! i)),
              y + py (depth_point (da ! i)),
              ds[i := cvPoint (px (depth_point (da ! i))) (py (depth_point (da ! i)))]))
        [0 ..< k] (0, 0, buf))
   = sum_list (map (\<lambda>d. px (depth_point d)) (take k da))"
proof (induction k)
  case 0
  show ?case by simp
next
  case (Suc k)
  then have k: "k < length da" by simp
  with Suc show ?case
    by (simp add: take_Suc_conv_app_nth case_prod_beta)
qed

lemma center_fold_y:
  "k \<le> length da \<Longrightarrow>
   fst (snd (fold (\<lambda>i (x, y, ds).
             (x + px (depth_point (da ! i)),
              y + py (depth_point (da ! i)),
              ds[i := cvPoint (px (depth_point (da ! i))) (py (depth_point (da ! i)))]))
        [0 ..< k] (0, 0, buf)))
   = sum_list (map (\<lambda>d. py (depth_point d)) (take k da))"
proof (induction k)
  case 0
  show ?case by simp
next
  case (Suc k)
  then have k: "k < length da" by simp
  with Suc show ?case
    by (simp add: take_Suc_conv_app_nth case_prod_beta)
qed

lemma center_fold_buf:
  "k \<le> length da \<Longrightarrow> k \<le> length buf \<Longrightarrow>
   snd (snd (fold (\<lambda>i (x, y, ds).
             (x + px (depth_point (da ! i)),
              y + py (depth_point (da ! i)),
              ds[i := cvPoint (px (depth_point (da ! i))) (py (depth_point (da ! i)))]))
        [0 ..< k] (0, 0, buf)))
   = map depth_point (take k da) @ drop k buf"
proof (induction k)
  case 0
  show ?case by simp
next
  case (Suc k)
  then have k: "k < length da" "k < length buf" by simp_all
  have pt: "cvPoint (px p) (py p) = p" for p by (simp add: cvPoint_def)
  have dr: "drop k buf = buf ! k # drop (Suc k) buf"
    using k by (simp add: Cons_nth_drop_Suc)
  from Suc k show ?case
    by (simp add: take_Suc_conv_app_nth case_prod_beta pt list_update_append dr)
qed

lemma center_loop_x:
  "fst (center_loop da buf) = sum_list (map (\<lambda>d. px (depth_point d)) (take (nat NUM_DEFECTS) da))"
  unfolding center_loop_def by (subst center_fold_x) (simp_all add: min_def)

lemma center_loop_y:
  "fst (snd (center_loop da buf)) = sum_list (map (\<lambda>d. py (depth_point d)) (take (nat NUM_DEFECTS) da))"
  unfolding center_loop_def by (subst center_fold_y) (simp_all add: min_def)

lemma radius_fold_upto:
  "k \<le> length da \<Longrightarrow>
   fold (\<lambda>i dist. dist + sqrt_trunc
                      ((x - px (depth_point (da ! i))) * (x - px (depth_point (da ! i))) +
                      (y - py (depth_point (da ! i))) * (y - py (depth_point (da ! i)))))
        [0 ..< k] 0
   = sum_list (map (\<lambda>d. sqrt_trunc (squaredDistance (cvPoint x y) (depth_point d))) (take k da))"
proof (induction k)
  case 0
  show ?case by simp
next
  case (Suc k)
  then have k: "k < length da" by simp
  with Suc show ?case
    by (simp add: take_Suc_conv_app_nth squaredDistance_def cvPoint_def power2_eq_square)
qed

lemma radius_loop_sum:
  "radius_loop da x y =
     sum_list (map (\<lambda>d. sqrt_trunc (squaredDistance (cvPoint x y) (depth_point d))) da)"
  unfolding radius_loop_def Let_def by (subst radius_fold_upto) simp_all


lemma sqrt_trunc_unique:
  assumes "0 \<le> r" and "r * r \<le> d" and "d < (r + 1) * (r + 1)"
  shows "sqrt_trunc d = r"
proof -
  have d0: "0 \<le> d" using assms(2) zero_le_square [of r] by linarith
  have "int (nat r * nat r) \<le> int (nat d)"
    using assms(1,2) d0 by (simp add: nat_mult_distrib)
  then have lo: "nat r * nat r \<le> nat d" by (simp only: of_nat_le_iff)
  have "int (nat d) < int (Suc (nat r) * Suc (nat r))"
    using assms(1,3) d0 by (simp add: algebra_simps)
  then have hi: "nat d < Suc (nat r) * Suc (nat r)" by (simp only: of_nat_less_iff)
  from floor_sqrt_unique [OF lo hi] assms(1) show ?thesis
    by (simp add: sqrt_trunc_def)
qed

lemma find_convex_hull_aggregate:
  assumes "contour c = Some cont" and "chull cont = Some h"
    and "cdefects cont h = Some defect_array" and "defect_array \<noteq> []"
  shows "find_convex_hull chull cdefects c =
     (let total = int (length defect_array);
          x = sum_list (map (\<lambda>d. px (depth_point d)) (take (nat NUM_DEFECTS) defect_array))
                sdiv total;
          y = sum_list (map (\<lambda>d. py (depth_point d)) (take (nat NUM_DEFECTS) defect_array))
                sdiv total
      in c\<lparr>hull_c := Some h,
            defects := snd (snd (center_loop defect_array (defects c))),
            num_defects := total,
            hand_center := cvPoint x y,
            hand_radius := radius_loop defect_array x y sdiv total\<rparr>)"
proof -
  obtain xs ys ds where cl: "center_loop defect_array (defects c) = (xs, ys, ds)"
    by (cases "center_loop defect_array (defects c)") auto
  have xs: "xs = sum_list (map (\<lambda>d. px (depth_point d)) (take (nat NUM_DEFECTS) defect_array))"
    using center_loop_x [of defect_array "defects c"] cl by simp
  have ys: "ys = sum_list (map (\<lambda>d. py (depth_point d)) (take (nat NUM_DEFECTS) defect_array))"
    using center_loop_y [of defect_array "defects c"] cl by simp
  show ?thesis
    using assms cl by (simp add: find_convex_hull_def Let_def xs [symmetric] ys [symmetric])
qed

lemma floor_sqrt_eval:
  assumes "0 \<le> r" and "r * r \<le> d" and "d < (r + 1) * (r + 1)"
  shows "\<lfloor>sqrt (real_of_int d)\<rfloor> = r"
proof -
  have "0 \<le> d" using assms(2) zero_le_square [of r] by linarith
  then show ?thesis
    using sqrt_trunc_real [of d] sqrt_trunc_unique [OF assms] by simp
qed

text \<open>
  C5. For a non-empty raw defect list the hand radius is the truncating integer mean,
  over all raw defects, of the square root, rounded down to an integer, of the squared
  distance from the computed centre to the defect's depth point. The depth points
  \<open>(0,0)\<close>, \<open>(10,0)\<close>, \<open>(0,10)\<close>, \<open>(10,10)\<close> give centre \<open>(5,5)\<close> and radius \<open>7\<close>.
  The depth points \<open>(0,0)\<close>, \<open>(3,3)\<close> give centre \<open>(1,1)\<close>, roots \<open>1\<close> (of \<open>2\<close>) and
  \<open>2\<close> (of \<open>8\<close>, which rounding to nearest would make \<open>3\<close>) and radius \<open>1\<close>.
\<close>

theorem radius_truncated_mean:
  assumes "contour c = Some cont" and "chull cont = Some h"
    and "cdefects cont h = Some defect_array" and "defect_array \<noteq> []"
  shows "hand_radius (find_convex_hull chull cdefects c) =
     sum_list (map (\<lambda>d. \<lfloor>sqrt (real_of_int
                 (squaredDistance
                    (hand_center (find_convex_hull chull cdefects c))
                    (depth_point d)))\<rfloor>) defect_array)
     sdiv int (length defect_array)"
proof -
  note agg = find_convex_hull_aggregate
    [where c = c and chull = chull and cdefects = cdefects,
     OF assms]
  have root: "sqrt_trunc (squaredDistance a b) = \<lfloor>sqrt (real_of_int (squaredDistance a b))\<rfloor>"
    for a b
    by (rule sqrt_trunc_real) (simp add: squaredDistance_def)
  show ?thesis by (simp add: agg Let_def radius_loop_sum root)
qed

theorem radius_truncated_mean_witness:
  "hand_center (find_convex_hull (\<lambda>p. Some p)
       (\<lambda>p h. Some [\<lparr>depth_point = cvPoint 0 0\<rparr>, \<lparr>depth_point = cvPoint 10 0\<rparr>,
                     \<lparr>depth_point = cvPoint 0 10\<rparr>, \<lparr>depth_point = cvPoint 10 10\<rparr>])
       ((init_ctx (zero_ctx \<lparr>width = 640, height = 480\<rparr>))\<lparr>contour := Some [cvPoint 0 0]\<rparr>))
     = cvPoint 5 5
   \<and> hand_radius (find_convex_hull (\<lambda>p. Some p)
       (\<lambda>p h. Some [\<lparr>depth_point = cvPoint 0 0\<rparr>, \<lparr>depth_point = cvPoint 10 0\<rparr>,
                     \<lparr>depth_point = cvPoint 0 10\<rparr>, \<lparr>depth_point = cvPoint 10 10\<rparr>])
       ((init_ctx (zero_ctx \<lparr>width = 640, height = 480\<rparr>))\<lparr>contour := Some [cvPoint 0 0]\<rparr>))
     = 7
   \<and> hand_center (find_convex_hull (\<lambda>p. Some p)
       (\<lambda>p h. Some [\<lparr>depth_point = cvPoint 0 0\<rparr>, \<lparr>depth_point = cvPoint 3 3\<rparr>])
       ((init_ctx (zero_ctx \<lparr>width = 640, height = 480\<rparr>))\<lparr>contour := Some [cvPoint 0 0]\<rparr>))
     = cvPoint 1 1
   \<and> \<lfloor>sqrt (real_of_int (squaredDistance (cvPoint 1 1) (cvPoint 0 0)))\<rfloor> = 1
   \<and> \<lfloor>sqrt (real_of_int (squaredDistance (cvPoint 1 1) (cvPoint 3 3)))\<rfloor> = 2
   \<and> hand_radius (find_convex_hull (\<lambda>p. Some p)
       (\<lambda>p h. Some [\<lparr>depth_point = cvPoint 0 0\<rparr>, \<lparr>depth_point = cvPoint 3 3\<rparr>])
       ((init_ctx (zero_ctx \<lparr>width = 640, height = 480\<rparr>))\<lparr>contour := Some [cvPoint 0 0]\<rparr>))
     = 1"
proof -
  let ?da = "[\<lparr>depth_point = cvPoint 0 0\<rparr>, \<lparr>depth_point = cvPoint 10 0\<rparr>,
              \<lparr>depth_point = cvPoint 0 10\<rparr>, \<lparr>depth_point = cvPoint 10 10\<rparr>]"
  let ?db = "[\<lparr>depth_point = cvPoint 0 0\<rparr>, \<lparr>depth_point = cvPoint 3 3\<rparr>]"
  let ?c = "(init_ctx (zero_ctx \<lparr>width = 640, height = 480\<rparr>))\<lparr>contour := Some [cvPoint 0 0]\<rparr>"
  let ?r = "find_convex_hull (\<lambda>p. Some p) (\<lambda>p h. Some ?da) ?c"
  let ?s = "find_convex_hull (\<lambda>p. Some p) (\<lambda>p h. Some ?db) ?c"
  have s50: "\<lfloor>sqrt (real_of_int 50)\<rfloor> = 7" by (rule floor_sqrt_eval) simp_all
  have s2: "\<lfloor>sqrt (real_of_int 2)\<rfloor> = 1" by (rule floor_sqrt_eval) simp_all
  have s8: "\<lfloor>sqrt (real_of_int 8)\<rfloor> = 2" by (rule floor_sqrt_eval) simp_all
  have d50: "squaredDistance (cvPoint 5 5) (cvPoint 0 0) = 50"
    "squaredDistance (cvPoint 5 5) (cvPoint 10 0) = 50"
    "squaredDistance (cvPoint 5 5) (cvPoint 0 10) = 50"
    "squaredDistance (cvPoint 5 5) (cvPoint 10 10) = 50"
    "squaredDistance (cvPoint 1 1) (cvPoint 0 0) = 2"
    "squaredDistance (cvPoint 1 1) (cvPoint 3 3) = 8"
    by (simp_all add: squaredDistance_def cvPoint_def)
  have center_r: "hand_center ?r = cvPoint 5 5"
    by (simp add: find_convex_hull_def center_loop_def Let_def NUM_DEFECTS_def
        init_ctx_def zero_ctx_def cvPoint_def signed_divide_int_def)
  have center_s: "hand_center ?s = cvPoint 1 1"
    by (simp add: find_convex_hull_def center_loop_def Let_def NUM_DEFECTS_def
        init_ctx_def zero_ctx_def cvPoint_def signed_divide_int_def)
  have "hand_radius ?r =
     sum_list (map (\<lambda>d. \<lfloor>sqrt (real_of_int
        (squaredDistance (hand_center ?r) (depth_point d)))\<rfloor>) ?da)
     sdiv int (length ?da)"
    by (rule radius_truncated_mean [where cont = "[cvPoint 0 0]" and h = "[cvPoint 0 0]"])
      simp_all
  then have radius_r: "hand_radius ?r = 7"
    unfolding center_r
    by (simp only: list.map sum_list.Cons sum_list.Nil CvConvexityDefect.simps d50 s50)
      (simp add: signed_divide_int_def)
  have "hand_radius ?s =
     sum_list (map (\<lambda>d. \<lfloor>sqrt (real_of_int
        (squaredDistance (hand_center ?s) (depth_point d)))\<rfloor>) ?db)
     sdiv int (length ?db)"
    by (rule radius_truncated_mean [where cont = "[cvPoint 0 0]" and h = "[cvPoint 0 0]"])
      simp_all
  then have radius_s: "hand_radius ?s = 1"
    unfolding center_s
    by (simp only: list.map sum_list.Cons sum_list.Nil CvConvexityDefect.simps d50 s2 s8)
      (simp add: signed_divide_int_def)
  from center_r radius_r center_s radius_s show ?thesis
    by (simp only: d50 s2 s8)
qed

text \<open>
  C7. When the library returns no defect sequence or an empty one, the aggregator does
  nothing: \<open>find_convex_hull\<close> only stores the hull, so the hand centre, the hand
  radius, \<open>num_defects\<close> and the defect buffer keep their previous values.
\<close>

theorem empty_defects_noop:
  assumes "contour c = Some cont" and "chull cont = Some h"
    and "cdefects cont h = None \<or> cdefects cont h = Some []"
  shows "find_convex_hull chull cdefects c = c\<lparr>hull_c := Some h\<rparr>"
  using assms by (auto simp: find_convex_hull_def Let_def)

theorem empty_defects_noop_witness:
  "hand_center (find_convex_hull (\<lambda>p. Some p) (\<lambda>p h. Some [])
       ((init_ctx (zero_ctx \<lparr>width = 640, height = 480\<rparr>))
          \<lparr>contour := Some [cvPoint 1 1], hand_center := cvPoint 5 5,
           hand_radius := 7, num_defects := 4\<rparr>)) = cvPoint 5 5
   \<and> hand_radius (find_convex_hull (\<lambda>p. Some p) (\<lambda>p h. Some [])
       ((init_ctx (zero_ctx \<lparr>width = 640, height = 480\<rparr>))
          \<lparr>contour := Some [cvPoint 1 1], hand_center := cvPoint 5 5,
           hand_radius := 7, num_defects := 4\<rparr>)) = 7
   \<and> num_defects (find_convex_hull (\<lambda>p. Some p) (\<lambda>p h. Some [])
       ((init_ctx (zero_ctx \<lparr>width = 640, height = 480\<rparr>))
          \<lparr>contour := Some [cvPoint 1 1], hand_center := cvPoint 5 5,
           hand_radius := 7, num_defects := 4\<rparr>)) = 4"
proof -
  let ?c = "(init_ctx (zero_ctx \<lparr>width = 640, height = 480\<rparr>))
          \<lparr>contour := Some [cvPoint 1 1], hand_center := cvPoint 5 5,
           hand_radius := 7, num_defects := 4\<rparr>"
  have "find_convex_hull (\<lambda>p. Some p) (\<lambda>p h. Some []) ?c = ?c\<lparr>hull_c := Some [cvPoint 1 1]\<rparr>"
    by (rule empty_defects_noop [where cont = "[cvPoint 1 1]"]) simp_all
  then show ?thesis by simp
qed

text \<open>
  What the code computes as centre: the sum runs over the first \<open>NUM_DEFECTS\<close> raw
  defects only, the divisor is the number of all raw defects.
\<close>

lemma hand_center_sampled_sum:
  assumes "contour c = Some cont" and "chull cont = Some h"
    and "cdefects cont h = Some defect_array" and "defect_array \<noteq> []"
  shows "hand_center (find_convex_hull chull cdefects c) =
     cvPoint
       (sum_list (map (\<lambda>d. px (depth_point d)) (take (nat NUM_DEFECTS) defect_array))
          sdiv int (length defect_array))
       (sum_list (map (\<lambda>d. py (depth_point d)) (take (nat NUM_DEFECTS) defect_array))
          sdiv int (length defect_array))"
proof -
  note agg = find_convex_hull_aggregate
    [where c = c and chull = chull and cdefects = cdefects, OF assms]
  show ?thesis by (simp add: agg Let_def)
qed

lemma hand_center_mean_up_to_cap:
  assumes "contour c = Some cont" and "chull cont = Some h"
    and "cdefects cont h = Some defect_array" and "defect_array \<noteq> []"
    and "int (length defect_array) \<le> NUM_DEFECTS"
  shows "hand_center (find_convex_hull chull cdefects c) =
     cvPoint
       (sum_list (map (\<lambda>d. px (depth_point d)) defect_array) sdiv int (length defect_array))
       (sum_list (map (\<lambda>d. py (depth_point d)) defect_array) sdiv int (length defect_array))"
proof -
  have "take (nat NUM_DEFECTS) defect_array = defect_array"
    using assms(5) by simp
  with hand_center_sampled_sum
    [where c = c and chull = chull and cdefects = cdefects, OF assms(1-4)]
  show ?thesis by simp
qed

text \<open>
  C1. The claim is that the centre is the truncated mean of the depth points of all raw
  defects. With nine raw defects whose depth point is \<open>(9,9)\<close> the code stores the
  centre \<open>(8,8)\<close>: it adds up the first eight depth points and divides by nine. The
  truncated mean of all nine is \<open>(9,9)\<close>.
\<close>

theorem center_of_nine_defects:
  "hand_center (find_convex_hull (\<lambda>p. Some p)
       (\<lambda>p h. Some (replicate 9 \<lparr>depth_point = cvPoint 9 9\<rparr>))
       ((init_ctx (zero_ctx \<lparr>width = 640, height = 480\<rparr>))\<lparr>contour := Some [cvPoint 1 1]\<rparr>))
     = cvPoint 8 8
   \<and> sum_list (map (\<lambda>d. px (depth_point d)) (replicate 9 \<lparr>depth_point = cvPoint 9 9\<rparr>))
       sdiv 9 = 9
   \<and> sum_list (map (\<lambda>d. py (depth_point d)) (replicate 9 \<lparr>depth_point = cvPoint 9 9\<rparr>))
       sdiv 9 = 9"
proof -
  let ?da = "replicate 9 \<lparr>depth_point = cvPoint 9 9\<rparr>"
  let ?c = "(init_ctx (zero_ctx \<lparr>width = 640, height = 480\<rparr>))\<lparr>contour := Some [cvPoint 1 1]\<rparr>"
  have "find_convex_hull (\<lambda>p. Some p) (\<lambda>p h. Some ?da) ?c = 
     (let total = int (length ?da);
          x = sum_list (map (\<lambda>d. px (depth_point d)) (take (nat NUM_DEFECTS) ?da))
                sdiv total;
          y = sum_list (map (\<lambda>d. py (depth_point d)) (take (nat NUM_DEFECTS) ?da))
                sdiv total
      in ?c\<lparr>hull_c := Some [cvPoint 1 1],
            defects := snd (snd (center_loop ?da (defects ?c))),
            num_defects := total,
            hand_center := cvPoint x y,
            hand_radius := radius_loop ?da x y sdiv total\<rparr>)"
    by (rule find_convex_hull_aggregate [where cont = "[cvPoint 1 1]"]) simp_all
  then show ?thesis
    by (simp add: Let_def NUM_DEFECTS_def cvPoint_def signed_divide_int_def sum_list_replicate)
qed

lemma center_loop_length: "length (snd (snd (center_loop da buf))) = length buf"
proof -
  have "length (snd (snd (fold (\<lambda>i (x, y, ds).
             (x + px (depth_point (da ! i)),
              y + py (depth_point (da ! i)),
              ds[i := cvPoint (px (depth_point (da ! i))) (py (depth_point (da ! i)))]))
        [0 ..< k] (0, 0, buf)))) = length buf" for k
    by (induction k) (simp_all add: case_prod_beta)
  then show ?thesis by (simp add: center_loop_def)
qed

text \<open>
  C2. The claim is that \<open>num_defects\<close> never exceeds \<open>NUM_DEFECTS = 8\<close>. With nine raw
  defects \<open>find_convex_hull\<close> stores \<open>num_defects = 9\<close>, while the defect buffer
  still has its eight slots.
\<close>

theorem num_defects_of_nine_defects:
  "num_defects (find_convex_hull (\<lambda>p. Some p)
       (\<lambda>p h. Some (replicate 9 \<lparr>depth_point = cvPoint 9 9\<rparr>))
       ((init_ctx (zero_ctx \<lparr>width = 640, height = 480\<rparr>))\<lparr>contour := Some [cvPoint 1 1]\<rparr>))
     = 9
   \<and> length (defects (find_convex_hull (\<lambda>p. Some p)
       (\<lambda>p h. Some (replicate 9 \<lparr>depth_point = cvPoint 9 9\<rparr>))
       ((init_ctx (zero_ctx \<lparr>width = 640, height = 480\<rparr>))\<lparr>contour := Some [cvPoint 1 1]\<rparr>)))
     = 8
   \<and> NUM_DEFECTS = 8"
proof -
  let ?da = "replicate 9 \<lparr>depth_point = cvPoint 9 9\<rparr>"
  let ?c = "(init_ctx (zero_ctx \<lparr>width = 640, height = 480\<rparr>))\<lparr>contour := Some [cvPoint 1 1]\<rparr>"
  have "find_convex_hull (\<lambda>p. Some p) (\<lambda>p h. Some ?da) ?c = 
     (let total = int (length ?da);
          x = sum_list (map (\<lambda>d. px (depth_point d)) (take (nat NUM_DEFECTS) ?da))
                sdiv total;
          y = sum_list (map (\<lambda>d. py (depth_point d)) (take (nat NUM_DEFECTS) ?da))
                sdiv total
      in ?c\<lparr>hull_c := Some [cvPoint 1 1],
            defects := snd (snd (center_loop ?da (defects ?c))),
            num_defects := total,
            hand_center := cvPoint x y,
            hand_radius := radius_loop ?da x y sdiv total\<rparr>)"
    by (rule find_convex_hull_aggregate [where cont = "[cvPoint 1 1]"]) simp_all
  then show ?thesis
    by (simp add: Let_def center_loop_length NUM_DEFECTS_def init_ctx_def)
qed

section \<open>The fingertip scan\<close>

text \<open>
  \<open>find_fingers_loop points k\<close>, started at index \<open>0\<close>, is the scan restricted
  to the indices below \<open>k\<close>. When its result has index \<open>k\<close> the scan with any
  bound \<open>n \<ge> k\<close> reaches index \<open>k\<close> in that state (\<open>loop_split\<close>); when the index
  is smaller the scan has left the loop by \<open>break\<close>.
\<close>

lemma loop_exit:
  "\<not> i < n \<Longrightarrow> find_fingers_loop points n (i, d1, d2, mp, c) = (i, d1, d2, mp, c)"
  by (simp add: find_fingers_loop.simps)

lemma loop_step:
  "i < n \<Longrightarrow> find_fingers_loop points n (i, d1, d2, mp, c) =
     (if squaredDistance (hand_center c) (points ! i) < d1 \<and> d1 > d2 \<and> px mp \<noteq> 0
         \<and> py mp < height (image_c c) - 10
      then if num_fingers c + 1 \<ge> NUM_FINGERS + 1
           then (i, d1, d2, mp,
                 c\<lparr>fingers := (fingers c)[nat (num_fingers c) := mp],
                   num_fingers := num_fingers c + 1\<rparr>)
           else find_fingers_loop points n
                  (Suc i, squaredDistance (hand_center c) (points ! i), d1, points ! i,
                   c\<lparr>fingers := (fingers c)[nat (num_fingers c) := mp],
                     num_fingers := num_fingers c + 1\<rparr>)
      else find_fingers_loop points n
             (Suc i, squaredDistance (hand_center c) (points ! i), d1, points ! i, c))"
  by (subst find_fingers_loop.simps)
    (simp add: Let_def squaredDistance_def power2_eq_square)

lemma loop_fst_mono: "i \<le> fst (find_fingers_loop points n (i, d1, d2, mp, c))"
proof (induction "n - i" arbitrary: i d1 d2 mp c)
  case 0
  then have "\<not> i < n" by simp
  then show ?case by (simp add: loop_exit)
next
  case (Suc m)
  then have lt: "i < n" and m: "m = n - Suc i" by simp_all
  have le: "i \<le> fst (find_fingers_loop points n (Suc i, a, b, p, c'))" for a b p c'
    using Suc.hyps(1) [OF m, of a b p c'] by simp
  show ?case by (simp add: loop_step [OF lt] le)
qed

lemma loop_fst_le: "i \<le> n \<Longrightarrow> fst (find_fingers_loop points n (i, d1, d2, mp, c)) \<le> n"
proof (induction "n - i" arbitrary: i d1 d2 mp c)
  case 0
  then have "\<not> i < n" by simp
  with 0 show ?case by (simp add: loop_exit)
next
  case (Suc m)
  then have lt: "i < n" and m: "m = n - Suc i" by simp_all
  have le: "fst (find_fingers_loop points n (Suc i, a, b, p, c')) \<le> n" for a b p c'
    using Suc.hyps(1) [OF m, of a b p c'] lt by simp
  show ?case using lt by (simp add: loop_step [OF lt] le)
qed

lemma loop_split:
  "i \<le> k \<Longrightarrow> k \<le> n \<Longrightarrow>
   find_fingers_loop points n (i, d1, d2, mp, c) =
     (if fst (find_fingers_loop points k (i, d1, d2, mp, c)) = k
      then find_fingers_loop points n (find_fingers_loop points k (i, d1, d2, mp, c))
      else find_fingers_loop points k (i, d1, d2, mp, c))"
proof (induction "k - i" arbitrary: i d1 d2 mp c)
  case 0
  then have "i = k" by simp
  then show ?case by (simp add: loop_exit)
next
  case (Suc m)
  then have lt: "i < k" and m: "m = k - Suc i" and ltn: "i < n" by simp_all
  have IH: "find_fingers_loop points n (Suc i, a, b, p, c') =
     (if fst (find_fingers_loop points k (Suc i, a, b, p, c')) = k
      then find_fingers_loop points n (find_fingers_loop points k (Suc i, a, b, p, c'))
      else find_fingers_loop points k (Suc i, a, b, p, c'))" for a b p c'
    using Suc.hyps(1) [OF m, of a b p c'] lt Suc.prems by simp
  show ?case
    apply (subst loop_step [OF ltn])
    apply (subst (1 2 3) loop_step [OF lt])
    using lt apply (simp add: IH)
    done
qed


lemma loop_frame:
  "find_fingers_loop points n (i, d1, d2, mp, c) = (i', d1', d2', mp', c') \<Longrightarrow>
   hand_center c' = hand_center c \<and> image_c c' = image_c c \<and> contour c' = contour c
   \<and> hull_c c' = hull_c c \<and> defects c' = defects c \<and> hand_radius c' = hand_radius c
   \<and> num_defects c' = num_defects c \<and> length (fingers c') = length (fingers c)
   \<and> num_fingers c \<le> num_fingers c'"
proof (induction "n - i" arbitrary: i d1 d2 mp c)
  case 0
  then have "\<not> i < n" by simp
  with 0 show ?case by (simp add: loop_exit)
next
  case (Suc m)
  then have lt: "i < n" and m: "m = n - Suc i" by simp_all
  note IH = Suc.hyps(1) [OF m]
  from Suc.prems show ?case
    by (auto simp: loop_step [OF lt] split: if_splits dest!: IH)
qed

lemma loop_cap:
  "i \<le> n \<Longrightarrow> num_fingers c \<le> NUM_FINGERS \<Longrightarrow>
   find_fingers_loop points n (i, d1, d2, mp, c) = (i', d1', d2', mp', c') \<Longrightarrow>
   (i' = n \<and> num_fingers c' \<le> NUM_FINGERS) \<or> (i' < n \<and> num_fingers c' = NUM_FINGERS + 1)"
proof (induction "n - i" arbitrary: i d1 d2 mp c)
  case 0
  then have "\<not> i < n" by simp
  with 0 show ?case by (simp add: loop_exit)
next
  case (Suc m)
  then have lt: "i < n" and m: "m = n - Suc i" by simp_all
  note IH = Suc.hyps(1) [OF m]
  show ?case
  proof (cases "squaredDistance (hand_center c) (points ! i) < d1 \<and> d1 > d2 \<and> px mp \<noteq> 0
         \<and> py mp < height (image_c c) - 10")
    case False
    with Suc.prems(3) have
      "find_fingers_loop points n
         (Suc i, squaredDistance (hand_center c) (points ! i), d1, points ! i, c)
       = (i', d1', d2', mp', c')"
      by (simp add: loop_step [OF lt])
    from IH [OF _ Suc.prems(2) this] lt show ?thesis by simp
  next
    case True
    let ?c = "c\<lparr>fingers := (fingers c)[nat (num_fingers c) := mp],
                     num_fingers := num_fingers c + 1\<rparr>"
    show ?thesis
    proof (cases "num_fingers c + 1 \<ge> NUM_FINGERS + 1")
      case True
      with \<open>squaredDistance (hand_center c) (points ! i) < d1 \<and> d1 > d2 \<and> px mp \<noteq> 0
         \<and> py mp < height (image_c c) - 10\<close> Suc.prems lt
      show ?thesis by (auto simp: loop_step [OF lt])
    next
      case False
      with True Suc.prems(3) have
        run: "find_fingers_loop points n
           (Suc i, squaredDistance (hand_center c) (points ! i), d1, points ! i, ?c)
         = (i', d1', d2', mp', c')"
        by (simp add: loop_step [OF lt])
      from False have "num_fingers ?c \<le> NUM_FINGERS" by simp
      from IH [OF _ this run] lt show ?thesis by simp
    qed
  qed
qed

lemma loop_last_step:
  assumes "find_fingers_loop points k (i, d1, d2, mp, c) = (k, a, b, m, ck)" and "i \<le> k"
  shows "find_fingers_loop points (Suc k) (i, d1, d2, mp, c) =
     (if squaredDistance (hand_center ck) (points ! k) < a \<and> a > b \<and> px m \<noteq> 0
         \<and> py m < height (image_c ck) - 10
      then if num_fingers ck + 1 \<ge> NUM_FINGERS + 1
           then (k, a, b, m,
                 ck\<lparr>fingers := (fingers ck)[nat (num_fingers ck) := m],
                    num_fingers := num_fingers ck + 1\<rparr>)
           else (Suc k, squaredDistance (hand_center ck) (points ! k), a, points ! k,
                 ck\<lparr>fingers := (fingers ck)[nat (num_fingers ck) := m],
                    num_fingers := num_fingers ck + 1\<rparr>)
      else (Suc k, squaredDistance (hand_center ck) (points ! k), a, points ! k, ck))"
proof -
  have "find_fingers_loop points (Suc k) (i, d1, d2, mp, c) =
        find_fingers_loop points (Suc k) (k, a, b, m, ck)"
    using loop_split [of i k "Suc k" points d1 d2 mp c] assms by simp
  then show ?thesis by (simp add: loop_step loop_exit)
qed

lemma loop_reach_prev:
  assumes "fst (find_fingers_loop points (Suc k) (i, d1, d2, mp, c)) = Suc k" and "i \<le> k"
  shows "fst (find_fingers_loop points k (i, d1, d2, mp, c)) = k"
proof (rule ccontr)
  assume ne: "fst (find_fingers_loop points k (i, d1, d2, mp, c)) \<noteq> k"
  then have "find_fingers_loop points (Suc k) (i, d1, d2, mp, c) =
             find_fingers_loop points k (i, d1, d2, mp, c)"
    using loop_split [of i k "Suc k" points d1 d2 mp c] assms(2) by simp
  with assms(1) loop_fst_le [of i k points d1 d2 mp c] assms(2) show False by simp
qed

lemma loop_registers:
  "find_fingers_loop points k (0, 0, 0, mp0, c0) = (k, d1, d2, mp, c) \<Longrightarrow> 0 < k \<Longrightarrow>
   mp = points ! (k - 1) \<and> d1 = squaredDistance (hand_center c0) (points ! (k - 1))
   \<and> d2 = (if 2 \<le> k then squaredDistance (hand_center c0) (points ! (k - 2)) else 0)"
proof (induction k arbitrary: d1 d2 mp c)
  case 0
  then show ?case by simp
next
  case (Suc k)
  have "fst (find_fingers_loop points k (0, 0, 0, mp0, c0)) = k"
    using loop_reach_prev [of points k 0 0 0 mp0 c0] Suc.prems(1) by simp
  then obtain a b m ck where
    prev: "find_fingers_loop points k (0, 0, 0, mp0, c0) = (k, a, b, m, ck)"
    by (cases "find_fingers_loop points k (0, 0, 0, mp0, c0)") auto
  have hc: "hand_center ck = hand_center c0"
    using loop_frame [OF prev] by simp
  from loop_last_step [OF prev] Suc.prems(1)
  have now: "mp = points ! k" "d1 = squaredDistance (hand_center c0) (points ! k)" "d2 = a"
    by (auto simp: hc split: if_splits)
  show ?case
  proof (cases "k = 0")
    case True
    with prev have "a = 0" by (simp add: loop_exit)
    with now True show ?thesis by simp
  next
    case False
    with Suc.IH [OF prev] have "a = squaredDistance (hand_center c0) (points ! (k - 1))"
      by simp
    moreover from False have "Suc k - 2 = k - 1" by simp
    ultimately show ?thesis using now False by simp
  qed
qed

lemma squaredDistance_nonneg: "0 \<le> squaredDistance a b"
  by (simp add: squaredDistance_def)

lemma find_fingers_scan:
  "contour c = Some points \<Longrightarrow> hull_c c = Some h \<Longrightarrow>
   find_fingers mp0 c =
     snd (snd (snd (snd (find_fingers_loop points (length points)
       (0, 0, 0, mp0, c\<lparr>num_fingers := 0\<rparr>)))))"
  by (simp add: find_fingers_def Let_def split: prod.splits)

lemma loop_cong:
  "(\<And>j. j < n \<Longrightarrow> points' ! j = points ! j) \<Longrightarrow>
   find_fingers_loop points' n (i, d1, d2, mp, c) = find_fingers_loop points n (i, d1, d2, mp, c)"
proof (induction "n - i" arbitrary: i d1 d2 mp c)
  case 0
  then have "\<not> i < n" by simp
  then show ?case by (simp add: loop_exit)
next
  case (Suc m)
  then have lt: "i < n" and m: "m = n - Suc i" by simp_all
  have IH: "find_fingers_loop points' n (Suc i, a, b, p, c') =
            find_fingers_loop points n (Suc i, a, b, p, c')" for a b p c'
    using Suc.hyps(1) [OF m, of a b p c'] Suc.prems by simp
  show ?case by (simp add: loop_step [OF lt] IH Suc.prems [OF lt])
qed

text \<open>
  C4 (amended). At every contour index \<open>k\<close> that the scan reaches, with the registers
  \<open>dist1\<close>, \<open>dist2\<close> and \<open>max_point\<close> it holds there, processing the index appends
  \<open>max_point\<close> to the fingertip list exactly when the squared distance of
  \<open>points[k]\<close> is below \<open>dist1\<close>, \<open>dist1\<close> is above \<open>dist2\<close>, the x-coordinate of
  \<open>max_point\<close> is not \<open>0\<close> and its y-coordinate is below the frame height minus
  \<open>10\<close>; otherwise the context is unchanged. The code tests \<open>max_point.x != 0\<close>, not
  whether the point is the origin.
\<close>

theorem scan_appends_iff:
  assumes "find_fingers_loop points k (0, 0, 0, mp0, c0) = (k, dist1, dist2, max_point, c)"
  shows "snd (snd (snd (snd (find_fingers_loop points (Suc k) (0, 0, 0, mp0, c0))))) =
     (if squaredDistance (hand_center c0) (points ! k) < dist1 \<and> dist1 > dist2
         \<and> px max_point \<noteq> 0 \<and> py max_point < height (image_c c0) - 10
      then c\<lparr>fingers := (fingers c)[nat (num_fingers c) := max_point],
             num_fingers := num_fingers c + 1\<rparr>
      else c)"
proof -
  have fr: "hand_center c = hand_center c0" "image_c c = image_c c0"
    using loop_frame [OF assms] by simp_all
  show ?thesis
    by (simp add: loop_last_step [OF assms] fr)
qed

lemma peak_reach2:
  "find_fingers_loop peak_points 2 (0, 0, 0, cvPoint 7 7, scan_ctx peak_points) =
     (2, 2500, 1600, cvPoint 50 100, scan_ctx peak_points)"
  by (simp add: loop_step loop_exit peak_points_def scan_ctx_def squaredDistance_def
      cvPoint_def init_ctx_def zero_ctx_def)

lemma peak_reach3:
  "find_fingers_loop peak_points 3 (0, 0, 0, cvPoint 7 7, scan_ctx peak_points) =
     (3, 900, 2500, cvPoint 70 100,
      (scan_ctx peak_points)
        \<lparr>fingers := (fingers (scan_ctx peak_points))[0 := cvPoint 50 100],
         num_fingers := 1\<rparr>)"
  by (simp add: loop_step loop_exit peak_points_def scan_ctx_def squaredDistance_def
      cvPoint_def init_ctx_def zero_ctx_def NUM_FINGERS_def)

lemma edge_reach2:
  "find_fingers_loop edge_points 2 (0, 0, 0, cvPoint 7 7, scan_ctx edge_points) =
     (2, 10000, 8100, cvPoint 0 100, scan_ctx edge_points)"
  by (simp add: loop_step loop_exit edge_points_def scan_ctx_def squaredDistance_def
      cvPoint_def init_ctx_def zero_ctx_def)

lemma edge_reach3:
  "find_fingers_loop edge_points 3 (0, 0, 0, cvPoint 7 7, scan_ctx edge_points) =
     (3, 8100, 10000, cvPoint 10 100, scan_ctx edge_points)"
  by (simp add: loop_step loop_exit edge_points_def scan_ctx_def squaredDistance_def
      cvPoint_def init_ctx_def zero_ctx_def NUM_FINGERS_def)

theorem scan_appends_iff_witness:
  "find_fingers_loop peak_points 2 (0, 0, 0, cvPoint 7 7, scan_ctx peak_points) =
     (2, 2500, 1600, cvPoint 50 100, scan_ctx peak_points)
   \<and> snd (snd (snd (snd
        (find_fingers_loop peak_points 3 (0, 0, 0, cvPoint 7 7, scan_ctx peak_points))))) =
      (scan_ctx peak_points)
        \<lparr>fingers := (fingers (scan_ctx peak_points))[0 := cvPoint 50 100],
         num_fingers := 1\<rparr>"
proof -
  have "snd (snd (snd (snd
        (find_fingers_loop peak_points (Suc 2) (0, 0, 0, cvPoint 7 7, scan_ctx peak_points))))) =
     (if squaredDistance (hand_center (scan_ctx peak_points)) (peak_points ! 2) < 2500
         \<and> (2500::int) > 1600
         \<and> px (cvPoint 50 100) \<noteq> 0
         \<and> py (cvPoint 50 100) < height (image_c (scan_ctx peak_points)) - 10
      then (scan_ctx peak_points)
             \<lparr>fingers := (fingers (scan_ctx peak_points))
                            [nat (num_fingers (scan_ctx peak_points)) := cvPoint 50 100],
              num_fingers := num_fingers (scan_ctx peak_points) + 1\<rparr>
      else scan_ctx peak_points)"
    by (rule scan_appends_iff [OF peak_reach2])
  then show ?thesis
    by (simp add: peak_reach2 peak_reach3)
qed

text \<open>
  C4 as stated fails. On the contour \<open>(10,100), (0,100), (10,100)\<close> with centre
  \<open>(100,100)\<close> the scan reaches index \<open>2\<close> with \<open>dist1 = 10000\<close>, \<open>dist2 = 8100\<close> and
  the candidate \<open>(0,100)\<close>: the distance \<open>8100\<close> of the current point is a strict
  drop, the candidate is not the origin and lies more than ten pixels above the bottom
  edge, yet nothing is appended.
\<close>

theorem origin_test_counterexample:
  "find_fingers_loop edge_points 2 (0, 0, 0, cvPoint 7 7, scan_ctx edge_points) =
     (2, 10000, 8100, cvPoint 0 100, scan_ctx edge_points)
   \<and> squaredDistance (hand_center (scan_ctx edge_points)) (edge_points ! 2) < 10000
   \<and> (10000::int) > 8100
   \<and> cvPoint 0 100 \<noteq> cvPoint 0 0
   \<and> py (cvPoint 0 100) < height (image_c (scan_ctx edge_points)) - 10
   \<and> find_fingers_loop edge_points 3 (0, 0, 0, cvPoint 7 7, scan_ctx edge_points) =
     (3, 8100, 10000, cvPoint 10 100, scan_ctx edge_points)
   \<and> num_fingers (find_fingers (cvPoint 7 7) (scan_ctx edge_points)) = 0"
proof -
  have c0: "(scan_ctx edge_points)\<lparr>num_fingers := 0\<rparr> = scan_ctx edge_points"
    by (simp add: scan_ctx_def init_ctx_def zero_ctx_def)
  have len: "length edge_points = 3" by (simp add: edge_points_def)
  have "find_fingers (cvPoint 7 7) (scan_ctx edge_points) =
        snd (snd (snd (snd (find_fingers_loop edge_points (length edge_points)
          (0, 0, 0, cvPoint 7 7, (scan_ctx edge_points)\<lparr>num_fingers := 0\<rparr>)))))"
    by (rule find_fingers_scan [where h = edge_points]) (simp_all add: scan_ctx_def)
  then have ff: "find_fingers (cvPoint 7 7) (scan_ctx edge_points) = scan_ctx edge_points"
    by (simp add: c0 len edge_reach3)
  have "num_fingers (scan_ctx edge_points) = 0"
    by (simp add: scan_ctx_def init_ctx_def zero_ctx_def)
  with ff show ?thesis
    by (simp add: edge_reach2 edge_reach3)
      (simp add: edge_points_def scan_ctx_def squaredDistance_def cvPoint_def
        init_ctx_def zero_ctx_def)
qed


lemma find_fingers_num_bound:
  "0 \<le> num_fingers (find_fingers mp0 c0) \<and> num_fingers (find_fingers mp0 c0) \<le> NUM_FINGERS + 1"
proof (cases "contour c0")
  case None
  then show ?thesis by (simp add: find_fingers_def NUM_FINGERS_def)
next
  case (Some points)
  show ?thesis
  proof (cases "hull_c c0")
    case None
    with Some show ?thesis by (simp add: find_fingers_def NUM_FINGERS_def)
  next
    case (Some h)
    obtain i d1 d2 mp c where
      run: "find_fingers_loop points (length points) (0, 0, 0, mp0, c0\<lparr>num_fingers := 0\<rparr>)
            = (i, d1, d2, mp, c)"
      by (cases "find_fingers_loop points (length points) (0, 0, 0, mp0, c0\<lparr>num_fingers := 0\<rparr>)")
        auto
    have ff: "find_fingers mp0 c0 = c"
      using find_fingers_scan [OF \<open>contour c0 = Some points\<close> Some, of mp0] run by simp
    have "0 \<le> num_fingers c" using loop_frame [OF run] by simp
    moreover have "num_fingers c \<le> NUM_FINGERS + 1"
      using loop_cap [OF _ _ run] by (auto simp: NUM_FINGERS_def)
    ultimately show ?thesis by (simp add: ff)
  qed
qed

text \<open>
  C6. \<open>find_fingers\<close> returns between \<open>0\<close> and \<open>NUM_FINGERS + 1 = 6\<close> candidates.
  When the scan ends with six, it left the loop at an index \<open>i\<close> inside the contour:
  the result is the state in which index \<open>i\<close> was reached, with five candidates, plus
  the sixth one appended there; the registers are not rolled, and the result is the
  same for every contour that agrees on the indices up to \<open>i\<close>, so no later point is
  examined.
\<close>

theorem fingers_cap_and_stop:
  assumes run: "find_fingers_loop points n (0, 0, 0, mp0, c0\<lparr>num_fingers := 0\<rparr>)
                = (i, dist1, dist2, max_point, c)"
  shows "0 \<le> num_fingers (find_fingers mp0 c0)
     \<and> num_fingers (find_fingers mp0 c0) \<le> NUM_FINGERS + 1
     \<and> 0 \<le> num_fingers c \<and> num_fingers c \<le> NUM_FINGERS + 1
     \<and> (num_fingers c = NUM_FINGERS + 1 \<longrightarrow>
          i < n
          \<and> (\<exists>c5. find_fingers_loop points i (0, 0, 0, mp0, c0\<lparr>num_fingers := 0\<rparr>)
                     = (i, dist1, dist2, max_point, c5)
                   \<and> num_fingers c5 = NUM_FINGERS
                   \<and> c = c5\<lparr>fingers := (fingers c5)[nat NUM_FINGERS := max_point],
                            num_fingers := NUM_FINGERS + 1\<rparr>)
          \<and> (\<forall>points' n'. i < n' \<and> take (Suc i) points' = take (Suc i) points \<longrightarrow>
                 find_fingers_loop points' n' (0, 0, 0, mp0, c0\<lparr>num_fingers := 0\<rparr>)
                 = (i, dist1, dist2, max_point, c)))"
proof -
  let ?init = "(0::nat, 0::int, 0::int, mp0, c0\<lparr>num_fingers := 0\<rparr>)"
  have start: "num_fingers (c0\<lparr>num_fingers := 0\<rparr>) \<le> NUM_FINGERS"
    by (simp add: NUM_FINGERS_def)
  have nonneg: "0 \<le> num_fingers c" using loop_frame [OF run] by simp
  have cases: "(i = n \<and> num_fingers c \<le> NUM_FINGERS) \<or> (i < n \<and> num_fingers c = NUM_FINGERS + 1)"
    using loop_cap [OF _ start run] by simp
  then have cap: "num_fingers c \<le> NUM_FINGERS + 1" by auto
  have stop: "i < n
          \<and> (\<exists>c5. find_fingers_loop points i ?init = (i, dist1, dist2, max_point, c5)
                   \<and> num_fingers c5 = NUM_FINGERS
                   \<and> c = c5\<lparr>fingers := (fingers c5)[nat NUM_FINGERS := max_point],
                            num_fingers := NUM_FINGERS + 1\<rparr>)
          \<and> (\<forall>points' n'. i < n' \<and> take (Suc i) points' = take (Suc i) points \<longrightarrow>
                 find_fingers_loop points' n' ?init = (i, dist1, dist2, max_point, c))"
    if six: "num_fingers c = NUM_FINGERS + 1"
  proof -
    from cases six have lt: "i < n" by auto
    have reach: "fst (find_fingers_loop points i ?init) = i"
    proof (rule ccontr)
      assume "fst (find_fingers_loop points i ?init) \<noteq> i"
      then have "find_fingers_loop points n ?init = find_fingers_loop points i ?init"
        using loop_split [of 0 i n points 0 0 mp0 "c0\<lparr>num_fingers := 0\<rparr>"] lt by simp
      with run \<open>fst (find_fingers_loop points i ?init) \<noteq> i\<close> show False by simp
    qed
    then obtain a b m c5 where
      head: "find_fingers_loop points i ?init = (i, a, b, m, c5)"
      by (cases "find_fingers_loop points i ?init") auto
    have five: "num_fingers c5 \<le> NUM_FINGERS"
      using loop_cap [OF _ start head] by simp
    have cont: "find_fingers_loop points n (i, a, b, m, c5) = (i, dist1, dist2, max_point, c)"
      using loop_split [of 0 i n points 0 0 mp0 "c0\<lparr>num_fingers := 0\<rparr>"] lt head run by simp
    have further: "find_fingers_loop pts bound (Suc i, x, y, p, c') \<noteq> (i, dist1, dist2, max_point, c)"
      for pts bound x y p c'
      using loop_fst_mono [of "Suc i" pts bound x y p c'] by auto
    let ?acc = "squaredDistance (hand_center c5) (points ! i) < a \<and> a > b \<and> px m \<noteq> 0
         \<and> py m < height (image_c c5) - 10"
    from cont further have acc: ?acc and brk: "num_fingers c5 + 1 \<ge> NUM_FINGERS + 1"
      and res: "(i, a, b, m, c5\<lparr>fingers := (fingers c5)[nat (num_fingers c5) := m],
                   num_fingers := num_fingers c5 + 1\<rparr>) = (i, dist1, dist2, max_point, c)"
      by (auto simp: loop_step [OF lt] split: if_splits)
    from five brk have n5: "num_fingers c5 = NUM_FINGERS" by simp
    from res have regs: "a = dist1" "b = dist2" "m = max_point" by simp_all
    from res n5 have c: "c = c5\<lparr>fingers := (fingers c5)[nat NUM_FINGERS := max_point],
                            num_fingers := NUM_FINGERS + 1\<rparr>"
      by (simp add: regs)
    have indep: "find_fingers_loop points' n' ?init = (i, dist1, dist2, max_point, c)"
      if lt': "i < n'" and prefix: "take (Suc i) points' = take (Suc i) points" for points' n'
    proof -
      have same: "points' ! j = points ! j" if "j \<le> i" for j
      proof -
        from that have "j < Suc i" by simp
        then have "points' ! j = take (Suc i) points' ! j" and
          "points ! j = take (Suc i) points ! j" by simp_all
        with prefix show ?thesis by simp
      qed
      have "find_fingers_loop points' i ?init = find_fingers_loop points i ?init"
        by (rule loop_cong) (use same in simp)
      with head have head': "find_fingers_loop points' i ?init = (i, a, b, m, c5)" by simp
      have "find_fingers_loop points' n' ?init = find_fingers_loop points' n' (i, a, b, m, c5)"
        using loop_split [of 0 i n' points' 0 0 mp0 "c0\<lparr>num_fingers := 0\<rparr>"] lt' head'
        by simp
      also have "\<dots> = (i, a, b, m, c5\<lparr>fingers := (fingers c5)[nat (num_fingers c5) := m],
                   num_fingers := num_fingers c5 + 1\<rparr>)"
        using acc brk same by (simp add: loop_step [OF lt'])
      finally show ?thesis using res by simp
    qed
    from lt head n5 c indep show ?thesis by (simp add: regs)
  qed
  from find_fingers_num_bound [of mp0 c0] nonneg cap stop show ?thesis by blast
qed

text \<open>
  C10. The iteration at index \<open>0\<close> never accepts: the squared distance is not below
  \<open>dist1 = 0\<close>, so the context is unchanged and \<open>max_point\<close> is overwritten by
  \<open>points[0]\<close>. Hence the result of \<open>find_fingers\<close> is the same for any two initial
  values of \<open>max_point\<close>.
\<close>

theorem first_iteration_never_accepts:
  "find_fingers_loop points (Suc 0) (0, 0, 0, mp0, c)
     = (Suc 0, squaredDistance (hand_center c) (points ! 0), 0, points ! 0, c)
   \<and> find_fingers mp0 c = find_fingers mp1 c"
proof -
  have no: "\<not> squaredDistance a b < 0" for a b
    using squaredDistance_nonneg [of a b] by simp
  have first: "find_fingers_loop points (Suc 0) (0, 0, 0, mp0, c)
     = (Suc 0, squaredDistance (hand_center c) (points ! 0), 0, points ! 0, c)"
    by (simp add: loop_step loop_exit no)
  have start: "snd (snd (snd (snd (find_fingers_loop pts (length pts) (0, 0, 0, mp, c')))))
             = snd (snd (snd (snd (find_fingers_loop pts (length pts) (0, 0, 0, mp', c')))))"
    for pts mp mp' c'
  proof (cases "pts = []")
    case True
    then show ?thesis by (simp add: loop_exit)
  next
    case False
    then have "0 < length pts" by simp
    then show ?thesis by (simp add: loop_step no)
  qed
  have "find_fingers mp0 c = find_fingers mp1 c"
  proof (cases "contour c")
    case None
    then show ?thesis by (simp add: find_fingers_def)
  next
    case (Some pts)
    show ?thesis
    proof (cases "hull_c c")
      case None
      with Some show ?thesis by (simp add: find_fingers_def)
    next
      case (Some h)
      from find_fingers_scan [OF \<open>contour c = Some pts\<close> Some]
      show ?thesis by (simp add: start [of pts mp0 _ mp1])
    qed
  qed
  with first show ?thesis by simp
qed


text \<open>
  C8 (amended). When the scan, started with an empty fingertip list in the six-slot
  buffer, reaches index \<open>k > 0\<close> and appends a point there, the register \<open>max_point\<close>
  and the appended point are the contour point one step behind the current index,
  \<open>points[k-1]\<close>, the point whose squared distance is \<open>dist1\<close>.
\<close>

theorem appended_point_is_previous:
  assumes reach: "find_fingers_loop points k (0, 0, 0, mp0, c0) = (k, dist1, dist2, max_point, c)"
    and k: "0 < k"
    and after: "find_fingers_loop points (Suc k) (0, 0, 0, mp0, c0) = (k', dist1', dist2', max_point', c')"
    and appended: "num_fingers c' = num_fingers c + 1"
    and start: "num_fingers c0 = 0" "length (fingers c0) = nat (NUM_FINGERS + 1)"
  shows "max_point = points ! (k - 1)
     \<and> dist1 = squaredDistance (hand_center c0) (points ! (k - 1))
     \<and> fingers c' ! nat (num_fingers c) = points ! (k - 1)"
proof -
  from loop_registers [OF reach k]
  have regs: "max_point = points ! (k - 1)"
    "dist1 = squaredDistance (hand_center c0) (points ! (k - 1))"
    by simp_all
  have len: "length (fingers c) = nat (NUM_FINGERS + 1)" and lo: "0 \<le> num_fingers c"
    using loop_frame [OF reach] start by simp_all
  have "num_fingers c0 \<le> NUM_FINGERS" using start by (simp add: NUM_FINGERS_def)
  from loop_cap [OF _ this reach] have hi: "num_fingers c \<le> NUM_FINGERS" by simp
  from lo hi len have inside: "nat (num_fingers c) < length (fingers c)" by simp
  from loop_last_step [OF reach] after appended
  have "c' = c\<lparr>fingers := (fingers c)[nat (num_fingers c) := max_point],
                num_fingers := num_fingers c + 1\<rparr>"
    by (auto split: if_splits)
  then have "fingers c' ! nat (num_fingers c) = max_point"
    using inside by simp
  with regs show ?thesis by simp
qed

theorem appended_point_is_previous_witness:
  "find_fingers_loop peak_points 2 (0, 0, 0, cvPoint 7 7, scan_ctx peak_points) =
     (2, 2500, 1600, cvPoint 50 100, scan_ctx peak_points)
   \<and> num_fingers (scan_ctx peak_points) = 0
   \<and> length (fingers (scan_ctx peak_points)) = nat (NUM_FINGERS + 1)
   \<and> cvPoint 50 100 = peak_points ! (2 - 1)
   \<and> fingers ((scan_ctx peak_points)
        \<lparr>fingers := (fingers (scan_ctx peak_points))[0 := cvPoint 50 100],
         num_fingers := 1\<rparr>) ! nat (num_fingers (scan_ctx peak_points)) = peak_points ! (2 - 1)"
proof -
  have n0: "num_fingers (scan_ctx peak_points) = 0"
    by (simp add: scan_ctx_def init_ctx_def zero_ctx_def)
  have len: "length (fingers (scan_ctx peak_points)) = nat (NUM_FINGERS + 1)"
    by (simp add: scan_ctx_def init_ctx_def zero_ctx_def)
  have r3: "find_fingers_loop peak_points (Suc 2) (0, 0, 0, cvPoint 7 7, scan_ctx peak_points) =
     (3, 900, 2500, cvPoint 70 100,
      (scan_ctx peak_points)
        \<lparr>fingers := (fingers (scan_ctx peak_points))[0 := cvPoint 50 100],
         num_fingers := 1\<rparr>)"
    using peak_reach3 by simp
  have "cvPoint 50 100 = peak_points ! (2 - 1)
     \<and> (2500::int) = squaredDistance (hand_center (scan_ctx peak_points)) (peak_points ! (2 - 1))
     \<and> fingers ((scan_ctx peak_points)
        \<lparr>fingers := (fingers (scan_ctx peak_points))[0 := cvPoint 50 100],
         num_fingers := 1\<rparr>) ! nat (num_fingers (scan_ctx peak_points)) = peak_points ! (2 - 1)"
    by (rule appended_point_is_previous [OF peak_reach2 _ r3 _ n0 len]) (simp_all add: n0)
  with peak_reach2 n0 len show ?thesis by blast
qed

text \<open>
  C8 as stated fails. On the contour \<open>(60,100), (50,100), (70,100)\<close> with centre
  \<open>(100,100)\<close> the scan accepts at index \<open>2\<close> and appends \<open>(50,100)\<close>, which is
  \<open>points[1]\<close> and differs from \<open>points[0]\<close>, the point two steps behind.
\<close>

theorem two_steps_behind_counterexample:
  "find_fingers_loop peak_points 2 (0, 0, 0, cvPoint 7 7, scan_ctx peak_points) =
     (2, 2500, 1600, cvPoint 50 100, scan_ctx peak_points)
   \<and> find_fingers_loop peak_points 3 (0, 0, 0, cvPoint 7 7, scan_ctx peak_points) =
     (3, 900, 2500, cvPoint 70 100,
      (scan_ctx peak_points)
        \<lparr>fingers := (fingers (scan_ctx peak_points))[0 := cvPoint 50 100],
         num_fingers := 1\<rparr>)
   \<and> num_fingers (find_fingers (cvPoint 7 7) (scan_ctx peak_points)) = 1
   \<and> fingers (find_fingers (cvPoint 7 7) (scan_ctx peak_points)) ! 0 = peak_points ! (2 - 1)
   \<and> fingers (find_fingers (cvPoint 7 7) (scan_ctx peak_points)) ! 0 \<noteq> peak_points ! (2 - 2)"
proof -
  have c0: "(scan_ctx peak_points)\<lparr>num_fingers := 0\<rparr> = scan_ctx peak_points"
    by (simp add: scan_ctx_def init_ctx_def zero_ctx_def)
  have len: "length peak_points = 3" by (simp add: peak_points_def)
  have "find_fingers (cvPoint 7 7) (scan_ctx peak_points) =
        snd (snd (snd (snd (find_fingers_loop peak_points (length peak_points)
          (0, 0, 0, cvPoint 7 7, (scan_ctx peak_points)\<lparr>num_fingers := 0\<rparr>)))))"
    by (rule find_fingers_scan [where h = peak_points]) (simp_all add: scan_ctx_def)
  then have ff: "find_fingers (cvPoint 7 7) (scan_ctx peak_points) =
      (scan_ctx peak_points)
        \<lparr>fingers := (fingers (scan_ctx peak_points))[0 := cvPoint 50 100],
         num_fingers := 1\<rparr>"
    by (simp add: c0 len peak_reach3)
  show ?thesis
    by (simp add: ff peak_reach2 peak_reach3)
      (simp add: peak_points_def scan_ctx_def cvPoint_def init_ctx_def zero_ctx_def
        NUM_FINGERS_def)
qed

lemma zigzag_run:
  "find_fingers_loop zigzag_points 15
     (0, 0, 0, cvPoint 7 7, (scan_ctx zigzag_points)\<lparr>num_fingers := 0\<rparr>) =
     (12, 2500, 100, cvPoint 50 100,
      (scan_ctx zigzag_points)
        \<lparr>fingers := replicate 6 (cvPoint 50 100), num_fingers := 6\<rparr>)"
  by (simp add: loop_step loop_exit zigzag_points_def scan_ctx_def squaredDistance_def
      cvPoint_def init_ctx_def zero_ctx_def NUM_FINGERS_def eval_nat_numeral)

theorem fingers_cap_and_stop_witness:
  "find_fingers_loop zigzag_points 15
     (0, 0, 0, cvPoint 7 7, (scan_ctx zigzag_points)\<lparr>num_fingers := 0\<rparr>) =
     (12, 2500, 100, cvPoint 50 100,
      (scan_ctx zigzag_points)
        \<lparr>fingers := replicate 6 (cvPoint 50 100), num_fingers := 6\<rparr>)
   \<and> num_fingers ((scan_ctx zigzag_points)
        \<lparr>fingers := replicate 6 (cvPoint 50 100), num_fingers := 6\<rparr>) = NUM_FINGERS + 1
   \<and> (12::nat) < 15
   \<and> find_fingers_loop (take 13 zigzag_points @ [cvPoint 1 2, cvPoint 3 4]) 14
        (0, 0, 0, cvPoint 7 7, (scan_ctx zigzag_points)\<lparr>num_fingers := 0\<rparr>) =
      (12, 2500, 100, cvPoint 50 100,
       (scan_ctx zigzag_points)
         \<lparr>fingers := replicate 6 (cvPoint 50 100), num_fingers := 6\<rparr>)"
proof -
  let ?c6 = "(scan_ctx zigzag_points)
        \<lparr>fingers := replicate 6 (cvPoint 50 100), num_fingers := 6\<rparr>"
  have six: "num_fingers ?c6 = NUM_FINGERS + 1" by (simp add: NUM_FINGERS_def)
  have same: "take (Suc 12) (take 13 zigzag_points @ [cvPoint 1 2, cvPoint 3 4]) =
              take (Suc 12) zigzag_points"
    by (simp add: zigzag_points_def)
  from fingers_cap_and_stop [OF zigzag_run] six same
  have "find_fingers_loop (take 13 zigzag_points @ [cvPoint 1 2, cvPoint 3 4]) 14
        (0, 0, 0, cvPoint 7 7, (scan_ctx zigzag_points)\<lparr>num_fingers := 0\<rparr>) =
      (12, 2500, 100, cvPoint 50 100, ?c6)"
    by simp
  with zigzag_run six show ?thesis by simp
qed

section \<open>display and the frame loop: properties\<close>

lemma for_each_append:
  "for_each body (ks @ ls) =
     (case for_each body ks of
        Inl e \<Rightarrow> Inl e
      | Inr a \<Rightarrow> (case for_each body ls of Inl e \<Rightarrow> Inl e | Inr b \<Rightarrow> Inr (a @ b)))"
  by (induction ks) (auto split: sum.splits)

lemma for_each_read:
  "n \<le> length buf \<Longrightarrow>
   for_each (\<lambda>k. case read_buf buf k of Inl e \<Rightarrow> Inl e | Inr p \<Rightarrow> Inr (g p)) [0 ..< n]
     = Inr (concat (map g (take n buf)))"
proof (induction n)
  case 0
  show ?case by simp
next
  case (Suc n)
  then have n: "n < length buf" by simp
  with Suc show ?case
    by (simp add: for_each_append read_buf_def take_Suc_conv_app_nth)
qed

lemma display_no_overlay:
  "num_fingers c \<noteq> NUM_FINGERS \<Longrightarrow>
   display c = Inr [ShowImage ''output'', ShowImage ''thresholded'']"
  by (simp add: display_def)

lemma display_overlay:
  assumes "num_fingers c = NUM_FINGERS" and "nat NUM_FINGERS \<le> length (fingers c)"
    and "nat (num_defects c) \<le> length (defects c)"
  shows "display c =
     Inr ([Circle (hand_center c) 5 PURPLE 1, Circle (hand_center c) (hand_radius c) RED 1]
          @ concat (map (\<lambda>p. [Circle p 10 GREEN 3, Line (hand_center c) p YELLOW 1])
                        (take (nat NUM_FINGERS) (fingers c)))
          @ concat (map (\<lambda>p. [Circle p 2 GREY 2]) (take (nat (num_defects c)) (defects c)))
          @ [ShowImage ''output'', ShowImage ''thresholded''])"
  using assms by (simp add: display_def for_each_read)

text \<open>
  C9. When the detection of a frame leaves \<open>num_fingers\<close> different from \<open>5\<close>, the
  iteration draws nothing: its trace is the two \<open>cvShowImage\<close> calls followed by
  \<open>cvWriteFrame\<close>. Every trace of an iteration ends with these three calls, and
  anything drawn before them implies \<open>num_fingers = 5\<close>. With five fingers (and the
  counts inside the buffers) the overlay is the centre circle, the radius circle, a
  marker and a line from the centre for each fingertip, and a marker for each defect
  point, drawn before the frames are shown.
\<close>

theorem overlay_only_with_five_fingers:
  "(num_fingers (detect f c0) \<noteq> NUM_FINGERS \<longrightarrow>
      main_iteration f c0 =
        (detect f c0, Inr [ShowImage ''output'', ShowImage ''thresholded'', WriteFrame]))
   \<and> (\<forall>ops. snd (main_iteration f c0) = Inr ops \<longrightarrow>
        (\<exists>rest. ops = rest @ [ShowImage ''output'', ShowImage ''thresholded'', WriteFrame]
               \<and> (rest \<noteq> [] \<longrightarrow> num_fingers (detect f c0) = NUM_FINGERS)))
   \<and> (num_fingers c = NUM_FINGERS \<and> nat NUM_FINGERS \<le> length (fingers c)
        \<and> nat (num_defects c) \<le> length (defects c) \<longrightarrow>
      display c =
        Inr ([Circle (hand_center c) 5 PURPLE 1, Circle (hand_center c) (hand_radius c) RED 1]
             @ concat (map (\<lambda>p. [Circle p 10 GREEN 3, Line (hand_center c) p YELLOW 1])
                           (take (nat NUM_FINGERS) (fingers c)))
             @ concat (map (\<lambda>p. [Circle p 2 GREY 2]) (take (nat (num_defects c)) (defects c)))
             @ [ShowImage ''output'', ShowImage ''thresholded'']))"
proof (intro conjI allI impI)
  assume "num_fingers (detect f c0) \<noteq> NUM_FINGERS"
  then show "main_iteration f c0 =
        (detect f c0, Inr [ShowImage ''output'', ShowImage ''thresholded'', WriteFrame])"
    by (simp add: main_iteration_def Let_def display_no_overlay)
next
  fix ops
  assume ok: "snd (main_iteration f c0) = Inr ops"
  show "\<exists>rest. ops = rest @ [ShowImage ''output'', ShowImage ''thresholded'', WriteFrame]
               \<and> (rest \<noteq> [] \<longrightarrow> num_fingers (detect f c0) = NUM_FINGERS)"
  proof (cases "num_fingers (detect f c0) = NUM_FINGERS")
    case False
    with ok have "ops = [] @ [ShowImage ''output'', ShowImage ''thresholded'', WriteFrame]"
      by (simp add: main_iteration_def Let_def display_no_overlay)
    then show ?thesis by blast
  next
    case True
    from ok obtain dops where d: "display (detect f c0) = Inr dops" and o: "ops = dops @ [WriteFrame]"
      by (auto simp: main_iteration_def Let_def split: sum.splits)
    from d True obtain rest where "dops = rest @ [ShowImage ''output'', ShowImage ''thresholded'']"
      by (auto simp: display_def split: sum.splits)
    with o True show ?thesis by simp
  qed
next
  assume "num_fingers c = NUM_FINGERS \<and> nat NUM_FINGERS \<le> length (fingers c)
        \<and> nat (num_defects c) \<le> length (defects c)"
  then show "display c =
        Inr ([Circle (hand_center c) 5 PURPLE 1, Circle (hand_center c) (hand_radius c) RED 1]
             @ concat (map (\<lambda>p. [Circle p 10 GREEN 3, Line (hand_center c) p YELLOW 1])
                           (take (nat NUM_FINGERS) (fingers c)))
             @ concat (map (\<lambda>p. [Circle p 2 GREY 2]) (take (nat (num_defects c)) (defects c)))
             @ [ShowImage ''output'', ShowImage ''thresholded''])"
    by (simp add: display_overlay)
qed

section \<open>Frames without a contour\<close>

lemma find_contour_none_found: "find_contour [] area approx c = c"
  by (simp add: find_contour_def)

lemma find_fingers_tracked:
  "find_fingers (cvPoint 7 7) (tracked_ctx\<lparr>fingers := fs\<rparr>) =
     tracked_ctx\<lparr>fingers := fs[0 := cvPoint 50 100]\<rparr>"
proof -
  have "find_fingers (cvPoint 7 7) (tracked_ctx\<lparr>fingers := fs\<rparr>) =
        snd (snd (snd (snd (find_fingers_loop peak_points (length peak_points)
          (0, 0, 0, cvPoint 7 7, tracked_ctx\<lparr>fingers := fs, num_fingers := 0\<rparr>)))))"
    using find_fingers_scan [of "tracked_ctx\<lparr>fingers := fs\<rparr>" peak_points peak_points "cvPoint 7 7"]
    by (simp add: tracked_ctx_def)
  also have "\<dots> = tracked_ctx\<lparr>fingers := fs[0 := cvPoint 50 100]\<rparr>"
    by (simp add: loop_step loop_exit peak_points_def tracked_ctx_def squaredDistance_def
        cvPoint_def NUM_FINGERS_def)
  finally show ?thesis .
qed

lemma find_convex_hull_tracked:
  assumes "contour c = Some peak_points"
  shows "find_convex_hull (convex_hull frame_with_hand) (convexity_defects frame_with_hand) c =
     c\<lparr>hull_c := Some peak_points,
       defects := (defects c)[0 := cvPoint 100 100],
       num_defects := 1,
       hand_center := cvPoint 100 100,
       hand_radius := 0\<rparr>"
proof -
  have s0: "sqrt_trunc 0 = 0" by (simp add: sqrt_trunc_def)
  show ?thesis
    using assms
    by (simp add: find_convex_hull_def frame_with_hand_def center_loop_def radius_loop_def
        Let_def NUM_DEFECTS_def cvPoint_def signed_divide_int_def s0)
qed

lemma detect_first_hand:
  "detect frame_with_hand (init_ctx (zero_ctx \<lparr>width = 640, height = 480\<rparr>)) = tracked_ctx"
proof -
  let ?c1 = "(init_ctx (zero_ctx \<lparr>width = 640, height = 480\<rparr>))\<lparr>contour := Some peak_points\<rparr>"
  have fc: "find_contour (found_contours frame_with_hand) (contour_area frame_with_hand)
              (approx_poly frame_with_hand)
              ((init_ctx (zero_ctx \<lparr>width = 640, height = 480\<rparr>))
                 \<lparr>image_c := query_frame frame_with_hand\<rparr>) = ?c1"
    by (simp add: find_contour_def frame_with_hand_def init_ctx_def zero_ctx_def)
  have ch: "find_convex_hull (convex_hull frame_with_hand) (convexity_defects frame_with_hand) ?c1
        = tracked_ctx\<lparr>fingers := replicate 6 (cvPoint 0 0), num_fingers := 0\<rparr>"
    by (subst find_convex_hull_tracked)
      (simp_all add: tracked_ctx_def init_ctx_def zero_ctx_def NUM_DEFECTS_def NUM_FINGERS_def
        eval_nat_numeral)
  have ff: "find_fingers (cvPoint 7 7) (tracked_ctx\<lparr>fingers := replicate 6 (cvPoint 0 0), num_fingers := 0\<rparr>)
        = tracked_ctx"
  proof -
    have "find_fingers (cvPoint 7 7) (tracked_ctx\<lparr>fingers := replicate 6 (cvPoint 0 0), num_fingers := 0\<rparr>)
        = find_fingers (cvPoint 7 7) (tracked_ctx\<lparr>fingers := replicate 6 (cvPoint 0 0)\<rparr>)"
      by (simp add: find_fingers_def)
    also have "\<dots> = tracked_ctx\<lparr>fingers := (replicate 6 (cvPoint 0 0))[0 := cvPoint 50 100]\<rparr>"
      by (rule find_fingers_tracked)
    also have "\<dots> = tracked_ctx"
      by (simp add: tracked_ctx_def eval_nat_numeral)
    finally show ?thesis .
  qed
  have sp: "stack_point frame_with_hand = cvPoint 7 7" by (simp add: frame_with_hand_def)
  show ?thesis
    unfolding detect_def Let_def fc ch sp ff ..
qed

lemma detect_stale_contour:
  "detect frame_without_contour tracked_ctx = tracked_ctx"
proof -
  have fc: "find_contour (found_contours frame_without_contour)
              (contour_area frame_without_contour) (approx_poly frame_without_contour)
              (tracked_ctx\<lparr>image_c := query_frame frame_without_contour\<rparr>) = tracked_ctx"
    by (simp add: find_contour_def frame_without_contour_def frame_with_hand_def tracked_ctx_def)
  have lib: "convex_hull frame_without_contour = convex_hull frame_with_hand"
    "convexity_defects frame_without_contour = convexity_defects frame_with_hand"
    "stack_point frame_without_contour = cvPoint 7 7"
    by (simp_all add: frame_without_contour_def frame_with_hand_def)
  have ch: "find_convex_hull (convex_hull frame_with_hand) (convexity_defects frame_with_hand)
              tracked_ctx = tracked_ctx"
    by (subst find_convex_hull_tracked) (simp_all add: tracked_ctx_def)
  have ff: "find_fingers (cvPoint 7 7) tracked_ctx = tracked_ctx"
    using find_fingers_tracked [of "fingers tracked_ctx"]
    by (simp add: tracked_ctx_def)
  show ?thesis
    unfolding detect_def Let_def fc lib ch ff ..
qed

text \<open>
  C3. The claim is that a frame in which no contour is found leaves the stored contour
  null and skips the detection. \<open>find_contour\<close> assigns \<open>ctx->contour\<close> only when a
  contour was found and never clears it: after a frame with a hand, a frame without
  any contour keeps the contour of the earlier frame, and the hull, the centre and a
  fingertip are computed from it again.
\<close>

theorem stale_contour_after_empty_frame:
  "found_contours frame_without_contour = []
   \<and> contour (main_frames [frame_with_hand, frame_without_contour]
        (init_ctx (zero_ctx \<lparr>width = 640, height = 480\<rparr>))) = Some peak_points
   \<and> hull_c (main_frames [frame_with_hand, frame_without_contour]
        (init_ctx (zero_ctx \<lparr>width = 640, height = 480\<rparr>))) = Some peak_points
   \<and> num_fingers (main_frames [frame_with_hand, frame_without_contour]
        (init_ctx (zero_ctx \<lparr>width = 640, height = 480\<rparr>))) = 1
   \<and> detect frame_without_contour tracked_ctx = tracked_ctx
   \<and> contour tracked_ctx = Some peak_points"
proof -
  have "main_frames [frame_with_hand, frame_without_contour]
        (init_ctx (zero_ctx \<lparr>width = 640, height = 480\<rparr>)) = tracked_ctx"
    by (simp add: main_iteration_def Let_def detect_first_hand detect_stale_contour)
  then show ?thesis
    by (simp add: detect_stale_contour)
      (simp add: tracked_ctx_def frame_without_contour_def)
qed

text \<open>
  Before any contour has been stored the detection is skipped as the claim says: the
  hull is null, no finger is counted, everything else keeps its value.
\<close>

lemma no_contour_yet:
  assumes "contour c = None"
  shows "detect (f\<lparr>found_contours := []\<rparr>) c =
           c\<lparr>image_c := query_frame f, hull_c := None, num_fingers := 0\<rparr>"
  using assms
  by (simp add: detect_def find_contour_def find_convex_hull_def find_fingers_def Let_def)


theorem overlay_only_with_five_fingers_witness:
  "num_fingers (detect frame_with_hand (init_ctx (zero_ctx \<lparr>width = 640, height = 480\<rparr>)))
     \<noteq> NUM_FINGERS
   \<and> main_iteration frame_with_hand (init_ctx (zero_ctx \<lparr>width = 640, height = 480\<rparr>)) =
       (tracked_ctx, Inr [ShowImage ''output'', ShowImage ''thresholded'', WriteFrame])
   \<and> num_fingers (tracked_ctx\<lparr>num_fingers := 5\<rparr>) = NUM_FINGERS
   \<and> display (tracked_ctx\<lparr>num_fingers := 5\<rparr>) =
       Inr [Circle (cvPoint 100 100) 5 PURPLE 1, Circle (cvPoint 100 100) 0 RED 1,
            Circle (cvPoint 50 100) 10 GREEN 3, Line (cvPoint 100 100) (cvPoint 50 100) YELLOW 1,
            Circle (cvPoint 0 0) 10 GREEN 3, Line (cvPoint 100 100) (cvPoint 0 0) YELLOW 1,
            Circle (cvPoint 0 0) 10 GREEN 3, Line (cvPoint 100 100) (cvPoint 0 0) YELLOW 1,
            Circle (cvPoint 0 0) 10 GREEN 3, Line (cvPoint 100 100) (cvPoint 0 0) YELLOW 1,
            Circle (cvPoint 0 0) 10 GREEN 3, Line (cvPoint 100 100) (cvPoint 0 0) YELLOW 1,
            Circle (cvPoint 100 100) 2 GREY 2,
            ShowImage ''output'', ShowImage ''thresholded'']"
proof -
  let ?c0 = "init_ctx (zero_ctx \<lparr>width = 640, height = 480\<rparr>)"
  let ?c5 = "tracked_ctx\<lparr>num_fingers := 5\<rparr>"
  have one: "num_fingers (detect frame_with_hand ?c0) \<noteq> NUM_FINGERS"
    by (simp add: detect_first_hand) (simp add: tracked_ctx_def NUM_FINGERS_def)
  have five: "num_fingers ?c5 = NUM_FINGERS \<and> nat NUM_FINGERS \<le> length (fingers ?c5)
        \<and> nat (num_defects ?c5) \<le> length (defects ?c5)"
    by (simp add: tracked_ctx_def NUM_FINGERS_def)
  from overlay_only_with_five_fingers [of frame_with_hand ?c0 ?c5] one five
  have "main_iteration frame_with_hand ?c0 =
        (detect frame_with_hand ?c0,
         Inr [ShowImage ''output'', ShowImage ''thresholded'', WriteFrame])"
    and "display ?c5 =
        Inr ([Circle (hand_center ?c5) 5 PURPLE 1, Circle (hand_center ?c5) (hand_radius ?c5) RED 1]
             @ concat (map (\<lambda>p. [Circle p 10 GREEN 3, Line (hand_center ?c5) p YELLOW 1])
                           (take (nat NUM_FINGERS) (fingers ?c5)))
             @ concat (map (\<lambda>p. [Circle p 2 GREY 2]) (take (nat (num_defects ?c5)) (defects ?c5)))
             @ [ShowImage ''output'', ShowImage ''thresholded''])"
    by blast+
  then have "main_iteration frame_with_hand ?c0 =
       (tracked_ctx, Inr [ShowImage ''output'', ShowImage ''thresholded'', WriteFrame])"
    and "display ?c5 =
       Inr [Circle (cvPoint 100 100) 5 PURPLE 1, Circle (cvPoint 100 100) 0 RED 1,
            Circle (cvPoint 50 100) 10 GREEN 3, Line (cvPoint 100 100) (cvPoint 50 100) YELLOW 1,
            Circle (cvPoint 0 0) 10 GREEN 3, Line (cvPoint 100 100) (cvPoint 0 0) YELLOW 1,
            Circle (cvPoint 0 0) 10 GREEN 3, Line (cvPoint 100 100) (cvPoint 0 0) YELLOW 1,
            Circle (cvPoint 0 0) 10 GREEN 3, Line (cvPoint 100 100) (cvPoint 0 0) YELLOW 1,
            Circle (cvPoint 0 0) 10 GREEN 3, Line (cvPoint 100 100) (cvPoint 0 0) YELLOW 1,
            Circle (cvPoint 100 100) 2 GREY 2,
            ShowImage ''output'', ShowImage ''thresholded'']"
    by (simp_all add: detect_first_hand tracked_ctx_def NUM_FINGERS_def)
  with one five show ?thesis by blast
qed

end
